theory Spec2Isabelle
  imports Complex_Main
begin

section \<open>JavaScript numbers\<close>

text \<open>
  A JavaScript number is modelled as a rational extended with the two infinities and NaN.
  Division by zero and every operation on NaN follow IEEE 754. The operators of this
  section return the exact result; rounding it to binary64 is a separate step, defined in
  the next section. There is one zero: dividing by it gives the result for a positive
  zero, the only zero a subtraction \<open>height - 24\<close> can produce.
\<close>

datatype jsnum = Fin rat | PInf | NInf | NaN

fun js_neg :: "jsnum \<Rightarrow> jsnum" where
  "js_neg (Fin x) = Fin (- x)"
| "js_neg PInf = NInf"
| "js_neg NInf = PInf"
| "js_neg NaN = NaN"

fun js_add :: "jsnum \<Rightarrow> jsnum \<Rightarrow> jsnum" where
  "js_add (Fin x) (Fin y) = Fin (x + y)"
| "js_add NaN b = NaN"
| "js_add a NaN = NaN"
| "js_add PInf NInf = NaN"
| "js_add NInf PInf = NaN"
| "js_add PInf b = PInf"
| "js_add NInf b = NInf"
| "js_add a PInf = PInf"
| "js_add a NInf = NInf"

definition js_sub :: "jsnum \<Rightarrow> jsnum \<Rightarrow> jsnum" where
  "js_sub a b = js_add a (js_neg b)"

fun js_mul :: "jsnum \<Rightarrow> jsnum \<Rightarrow> jsnum" where
  "js_mul (Fin x) (Fin y) = Fin (x * y)"
| "js_mul NaN b = NaN"
| "js_mul a NaN = NaN"
| "js_mul PInf (Fin y) = (if y = 0 then NaN else if 0 < y then PInf else NInf)"
| "js_mul NInf (Fin y) = (if y = 0 then NaN else if 0 < y then NInf else PInf)"
| "js_mul (Fin x) PInf = (if x = 0 then NaN else if 0 < x then PInf else NInf)"
| "js_mul (Fin x) NInf = (if x = 0 then NaN else if 0 < x then NInf else PInf)"
| "js_mul PInf PInf = PInf"
| "js_mul NInf NInf = PInf"
| "js_mul PInf NInf = NInf"
| "js_mul NInf PInf = NInf"

fun js_div :: "jsnum \<Rightarrow> jsnum \<Rightarrow> jsnum" where
  "js_div (Fin x) (Fin y) =
     (if y = 0 then (if x = 0 then NaN else if 0 < x then PInf else NInf)
      else Fin (x / y))"
| "js_div NaN b = NaN"
| "js_div a NaN = NaN"
| "js_div (Fin x) PInf = Fin 0"
| "js_div (Fin x) NInf = Fin 0"
| "js_div PInf (Fin y) = (if 0 \<le> y then PInf else NInf)"
| "js_div NInf (Fin y) = (if 0 \<le> y then NInf else PInf)"
| "js_div PInf b = NaN"
| "js_div NInf b = NaN"

text \<open>The comparison operators: every comparison with NaN is false.\<close>

fun js_lt :: "jsnum \<Rightarrow> jsnum \<Rightarrow> bool" where
  "js_lt (Fin x) (Fin y) = (x < y)"
| "js_lt NaN b = False"
| "js_lt a NaN = False"
| "js_lt PInf b = False"
| "js_lt a NInf = False"
| "js_lt NInf b = True"
| "js_lt a PInf = True"

fun js_eq :: "jsnum \<Rightarrow> jsnum \<Rightarrow> bool" where
  "js_eq NaN b = False"
| "js_eq a NaN = False"
| "js_eq a b = (a = b)"

definition js_le :: "jsnum \<Rightarrow> jsnum \<Rightarrow> bool" where
  "js_le a b = (js_lt a b \<or> js_eq a b)"

definition js_gt :: "jsnum \<Rightarrow> jsnum \<Rightarrow> bool" where
  "js_gt a b = js_lt b a"

definition js_ge :: "jsnum \<Rightarrow> jsnum \<Rightarrow> bool" where
  "js_ge a b = js_le b a"

text \<open>\<open>Math.min\<close> and \<open>Math.max\<close>: NaN when an argument is NaN.\<close>

fun Math_min :: "jsnum \<Rightarrow> jsnum \<Rightarrow> jsnum" where
  "Math_min NaN b = NaN"
| "Math_min a NaN = NaN"
| "Math_min a b = (if js_lt b a then b else a)"

fun Math_max :: "jsnum \<Rightarrow> jsnum \<Rightarrow> jsnum" where
  "Math_max NaN b = NaN"
| "Math_max a NaN = NaN"
| "Math_max a b = (if js_lt a b then b else a)"

text \<open>\<open>Math.round\<close> rounds to the nearest integer, a half towards plus infinity.\<close>

fun Math_round :: "jsnum \<Rightarrow> jsnum" where
  "Math_round (Fin x) = Fin (of_int \<lfloor>x + 1 / 2\<rfloor>)"
| "Math_round a = a"

fun Math_floor :: "jsnum \<Rightarrow> jsnum" where
  "Math_floor (Fin x) = Fin (of_int \<lfloor>x\<rfloor>)"
| "Math_floor a = a"

text \<open>The remainder operator \<open>%\<close> truncates the quotient towards zero.\<close>

definition trunc_rat :: "rat \<Rightarrow> int" where
  "trunc_rat q = (if 0 \<le> q then \<lfloor>q\<rfloor> else \<lceil>q\<rceil>)"

fun js_mod :: "jsnum \<Rightarrow> jsnum \<Rightarrow> jsnum" where
  "js_mod (Fin x) (Fin y) = (if y = 0 then NaN else Fin (x - y * of_int (trunc_rat (x / y))))"
| "js_mod (Fin x) PInf = Fin x"
| "js_mod (Fin x) NInf = Fin x"
| "js_mod a b = NaN"

text \<open>
  \<open>Number(x.toFixed(2))\<close> and \<open>parseFloat(x.toFixed(2))\<close>: the nearest multiple of
  one hundredth, the larger in magnitude of two equally near ones; NaN and the infinities
  print as such and read back unchanged.
\<close>

fun toFixed2 :: "jsnum \<Rightarrow> jsnum" where
  "toFixed2 (Fin x) =
     (if x < 0 then Fin (- (of_int \<lfloor>(- x) * 100 + 1 / 2\<rfloor> / 100))
      else Fin (of_int \<lfloor>x * 100 + 1 / 2\<rfloor> / 100))"
| "toFixed2 a = a"

section \<open>Binary64 rounding\<close>

text \<open>
  The operators above are exact. The code computes in binary64: every arithmetic operation
  returns the binary64 value nearest to the exact result, a tie going to the even
  significand; a result of magnitude \<open>2 ^ 1024\<close> or more is an infinity, and below
  \<open>2 ^ (- 1022)\<close> the spacing stays \<open>2 ^ (- 1074)\<close>.
  \<open>add64\<close>, \<open>sub64\<close>, \<open>mul64\<close> and \<open>div64\<close> are the operators with this rounding. They
  are used in the arithmetic of a move or resize, where the rounding decides the minute
  that is formatted. The exact operators are kept elsewhere: \<open>getHourFromY\<close> is the
  pointer's hour in exact arithmetic, in which its range and monotonicity are stated
  (\<open>getHourFromY64\<close> is its evaluation in binary64, which a move or resize reads); a
  result \<open>k / 100\<close> of \<open>calculateShiftHours\<close> stands for the binary64 value nearest to
  it; the difference of two half-hour multiples that a pointer release compares is exact
  in binary64.
\<close>

fun bitlen_nat :: "nat \<Rightarrow> nat" where
  "bitlen_nat n = (if n = 0 then 0 else Suc (bitlen_nat (n div 2)))"

declare bitlen_nat.simps [simp del]

definition pow2 :: "int \<Rightarrow> rat" where
  "pow2 e = (if 0 \<le> e then 2 ^ nat e else 1 / 2 ^ nat (- e))"

text \<open>
  The binary exponent of a positive rational \<open>a\<close>, the \<open>e\<close> with
  \<open>2 ^ e \<le> a < 2 ^ (e + 1)\<close>: from the bit length of \<open>\<lfloor>a\<rfloor>\<close> when \<open>1 \<le> a\<close>, and
  else from the least \<open>k\<close> with \<open>1 / a \<le> 2 ^ k\<close>.
\<close>

definition exponent_of :: "rat \<Rightarrow> int" where
  "exponent_of a =
     (if 1 \<le> a then int (bitlen_nat (nat \<lfloor>a\<rfloor>)) - 1
      else - int (bitlen_nat (nat (\<lceil>1 / a\<rceil> - 1))))"

definition round_half_even :: "rat \<Rightarrow> int" where
  "round_half_even t =
     (let f = \<lfloor>t\<rfloor>; r = t - of_int f
      in if r < 1 / 2 then f else if 1 / 2 < r then f + 1 else if even f then f else f + 1)"

definition round64 :: "rat \<Rightarrow> jsnum" where
  "round64 x =
     (if x = 0 then Fin 0
      else
        (let a = \<bar>x\<bar>;
             e = max (exponent_of a) (- 1022);
             ulp = pow2 (e - 52);
             m = of_int (round_half_even (a / ulp)) * ulp
         in if 1024 \<le> exponent_of m then (if 0 < x then PInf else NInf)
            else Fin (if 0 < x then m else - m)))"

fun to_double :: "jsnum \<Rightarrow> jsnum" where
  "to_double (Fin x) = round64 x"
| "to_double a = a"

definition add64 :: "jsnum \<Rightarrow> jsnum \<Rightarrow> jsnum" where
  "add64 a b = to_double (js_add a b)"

definition sub64 :: "jsnum \<Rightarrow> jsnum \<Rightarrow> jsnum" where
  "sub64 a b = to_double (js_sub a b)"

definition mul64 :: "jsnum \<Rightarrow> jsnum \<Rightarrow> jsnum" where
  "mul64 a b = to_double (js_mul a b)"

definition div64 :: "jsnum \<Rightarrow> jsnum \<Rightarrow> jsnum" where
  "div64 a b = to_double (js_div a b)"

section \<open>Strings of digits\<close>

definition digit_val :: "char \<Rightarrow> nat option" where
  "digit_val c =
     map_of [(CHR ''0'', 0), (CHR ''1'', 1), (CHR ''2'', 2), (CHR ''3'', 3), (CHR ''4'', 4),
             (CHR ''5'', 5), (CHR ''6'', 6), (CHR ''7'', 7), (CHR ''8'', 8), (CHR ''9'', 9)] c"

definition digit_char :: "nat \<Rightarrow> char" where
  "digit_char n = ''0123456789'' ! (n mod 10)"

fun nat_toString :: "nat \<Rightarrow> string" where
  "nat_toString n =
     (if n < 10 then [digit_char n] else nat_toString (n div 10) @ [digit_char (n mod 10)])"

declare nat_toString.simps [simp del]

text \<open>
  \<open>Number.prototype.toString\<close>, on the values this program prints: integers, NaN and
  the infinities. (A finite value with a fractional part is never printed by the modelled
  functions; the model prints its integer part.)
\<close>

fun js_toString :: "jsnum \<Rightarrow> string" where
  "js_toString (Fin x) =
     (if x < 0 then CHR ''-'' # nat_toString (nat (- \<lfloor>x\<rfloor>)) else nat_toString (nat \<lfloor>x\<rfloor>))"
| "js_toString PInf = ''Infinity''"
| "js_toString NInf = ''-Infinity''"
| "js_toString NaN = ''NaN''"

definition padStart2 :: "string \<Rightarrow> string" where
  "padStart2 s = replicate (2 - length s) CHR ''0'' @ s"

section \<open>Data model (types.ts)\<close>

record Shift =
  id' :: string
  employeeId :: string
  date :: string
  startTime :: string
  endTime :: string
  hours :: jsnum

text \<open>\<open>Partial<Shift>\<close>: every field may be absent.\<close>

record PartialShift =
  id_opt :: "string option"
  employeeId_opt :: "string option"
  date_opt :: "string option"
  startTime_opt :: "string option"
  endTime_opt :: "string option"
  hours_opt :: "jsnum option"

definition toPartial :: "Shift \<Rightarrow> PartialShift" where
  "toPartial s =
     \<lparr>id_opt = Some (id' s), employeeId_opt = Some (employeeId s), date_opt = Some (date s),
      startTime_opt = Some (startTime s), endTime_opt = Some (endTime s),
      hours_opt = Some (hours s)\<rparr>"

section \<open>Times of day (date-fns \<open>parse\<close> with the format \<open>HH:mm\<close>)\<close>

text \<open>
  \<open>parse(s, 'HH:mm', new Date())\<close> is a function of the date-fns library. It is modelled
  on strings of the shape the \<open>Shift\<close> type documents: two digits, a colon, two digits,
  the hour at most 23 and the minute at most 59. The result is the number of minutes after
  midnight of the reference day, or \<open>None\<close> for an Invalid Date (whose \<open>getTime()\<close> is
  NaN). Both parses of one call use the same reference day, which is taken to have no
  clock change, so that timestamps compare like the minutes.
\<close>

fun parse_HHmm :: "string \<Rightarrow> nat option" where
  "parse_HHmm [a, b, c, d, e] =
     (case (digit_val a, digit_val b, digit_val d, digit_val e) of
        (Some h1, Some h2, Some m1, Some m2) \<Rightarrow>
          (if c = CHR '':'' \<and> 10 * h1 + h2 \<le> 23 \<and> 10 * m1 + m2 \<le> 59
           then Some (60 * (10 * h1 + h2) + (10 * m1 + m2)) else None)
      | _ \<Rightarrow> None)"
| "parse_HHmm s = None"

text \<open>Comparison of two \<open>getTime()\<close> values; false when either is NaN.\<close>

definition time_lt :: "nat option \<Rightarrow> nat option \<Rightarrow> bool" where
  "time_lt a b = (case (a, b) of (Some x, Some y) \<Rightarrow> x < y | _ \<Rightarrow> False)"

text \<open>\<open>differenceInMinutes(later, earlier)\<close>; NaN when either date is invalid.\<close>

definition differenceInMinutes :: "nat option \<Rightarrow> nat option \<Rightarrow> jsnum" where
  "differenceInMinutes later earlier =
     (case (later, earlier) of
        (Some l, Some e) \<Rightarrow> Fin (of_int (int l - int e))
      | _ \<Rightarrow> NaN)"

section \<open>utils/helpers.ts\<close>

text \<open>
  Both helpers wrap their body in \<open>try\<close>/\<open>catch\<close>. \<open>parse\<close> does not throw on a
  string: a string it cannot read gives an Invalid Date, whose arithmetic is NaN. The
  \<open>catch\<close> branches are therefore not reached and have no counterpart here.
\<close>

definition calculateShiftHours :: "string \<Rightarrow> string \<Rightarrow> jsnum" where
  "calculateShiftHours start end' =
     (let startTime' = parse_HHmm start;
          endTime' = parse_HHmm end';
          diff = differenceInMinutes endTime' startTime';
          diff = (if js_lt diff (Fin 0) then js_add diff (Fin 1440) else diff)
      in toFixed2 (js_div diff (Fin 60)))"

text \<open>\<open>!x\<close> on an optional string: true when it is absent or empty.\<close>

definition falsy :: "string option \<Rightarrow> bool" where
  "falsy v = (case v of None \<Rightarrow> True | Some s \<Rightarrow> s = [])"

definition checkOverlap :: "Shift list \<Rightarrow> PartialShift \<Rightarrow> bool" where
  "checkOverlap shifts newShift =
     (if falsy (employeeId_opt newShift) \<or> falsy (date_opt newShift)
         \<or> falsy (startTime_opt newShift) \<or> falsy (endTime_opt newShift) then False
      else
        (let employeeShifts =
               filter (\<lambda>s. Some (employeeId s) = employeeId_opt newShift
                          \<and> Some (date s) = date_opt newShift
                          \<and> Some (id' s) \<noteq> id_opt newShift) shifts;
             nStart = Option.bind (startTime_opt newShift) parse_HHmm;
             nEnd = Option.bind (endTime_opt newShift) parse_HHmm
         in list_ex (\<lambda>s.
              (let sStart = parse_HHmm (startTime s);
                   sEnd = parse_HHmm (endTime s)
               in time_lt nStart sEnd \<and> time_lt sStart nEnd)) employeeShifts))"

section \<open>components/WeeklyCalendar.tsx: the time grid\<close>

definition START_HOUR :: jsnum where "START_HOUR = Fin 8"
definition END_HOUR :: jsnum where "END_HOUR = Fin 23"
definition TOTAL_HOURS :: jsnum where "TOTAL_HOURS = js_sub END_HOUR START_HOUR"
definition SNAP_MINUTES :: jsnum where "SNAP_MINUTES = Fin 30"
definition VERTICAL_PADDING :: jsnum where "VERTICAL_PADDING = Fin 12"

definition getHourFromY :: "jsnum \<Rightarrow> jsnum \<Rightarrow> jsnum" where
  "getHourFromY y height =
     (let usableHeight = js_sub height (js_mul VERTICAL_PADDING (Fin 2));
          relativeY = js_sub y VERTICAL_PADDING;
          hourFloat = js_add (js_mul (js_div relativeY usableHeight) TOTAL_HOURS) START_HOUR;
          snapParts = js_div (Fin 60) SNAP_MINUTES;
          hour = js_div (Math_round (js_mul hourFloat snapParts)) snapParts
      in Math_max START_HOUR (Math_min END_HOUR hour))"

text \<open>\<open>getHourFromY\<close> with every operation rounded to binary64.\<close>

definition getHourFromY64 :: "jsnum \<Rightarrow> jsnum \<Rightarrow> jsnum" where
  "getHourFromY64 y height =
     (let usableHeight = sub64 height (mul64 VERTICAL_PADDING (Fin 2));
          relativeY = sub64 y VERTICAL_PADDING;
          hourFloat = add64 (mul64 (div64 relativeY usableHeight) TOTAL_HOURS) START_HOUR;
          snapParts = div64 (Fin 60) SNAP_MINUTES;
          hour = div64 (Math_round (mul64 hourFloat snapParts)) snapParts
      in Math_max START_HOUR (Math_min END_HOUR hour))"

definition formatTimeFromHour :: "jsnum \<Rightarrow> string" where
  "formatTimeFromHour h =
     (let hours' = Math_floor h;
          mins = Math_round (mul64 (js_mod h (Fin 1)) (Fin 60));
          safeHours = Math_min (Math_max hours' (Fin 0)) (Fin 23);
          safeMins = Math_min (Math_max mins (Fin 0)) (Fin 59)
      in padStart2 (js_toString safeHours) @ '':'' @ padStart2 (js_toString safeMins))"

text \<open>
  \<open>s.split(':').map(Number)\<close> on a time field. \<open>Number\<close> is modelled on the strings a
  time field holds: a string of decimal digits is its value and the empty string is 0;
  every other string is taken as NaN. A missing second part is \<open>undefined\<close>, which
  divides to NaN.
\<close>

fun split_colon :: "string \<Rightarrow> string list" where
  "split_colon [] = [[]]"
| "split_colon (c # cs) =
     (if c = CHR '':'' then [] # split_colon cs
      else (case split_colon cs of p # ps \<Rightarrow> (c # p) # ps | [] \<Rightarrow> [[c]]))"

fun digits_value :: "nat \<Rightarrow> string \<Rightarrow> nat option" where
  "digits_value acc [] = Some acc"
| "digits_value acc (c # cs) =
     (case digit_val c of None \<Rightarrow> None | Some d \<Rightarrow> digits_value (10 * acc + d) cs)"

definition Number_of :: "string \<Rightarrow> jsnum" where
  "Number_of s = (case digits_value 0 s of None \<Rightarrow> NaN | Some n \<Rightarrow> Fin (of_nat n))"

definition hourOfTime :: "string \<Rightarrow> jsnum" where
  "hourOfTime t =
     (let parts = map Number_of (split_colon t);
          p0 = (case parts of [] \<Rightarrow> NaN | a # _ \<Rightarrow> a);
          p1 = (case parts of _ # b # _ \<Rightarrow> b | _ \<Rightarrow> NaN)
      in add64 p0 (div64 p1 (Fin 60)))"

subsection \<open>Interaction state\<close>

datatype InteractionType = Move | ResizeTop | ResizeBottom

record CalendarState =
  isSelecting :: bool
  dragDay :: "string option"
  dragStartHour :: "jsnum option"
  dragCurrentHour :: "jsnum option"
  activeShiftId :: "string option"
  interactionType :: "InteractionType option"
  interactionOffset :: jsnum
  interactionInitialHours :: "(jsnum \<times> jsnum) option"
  tempShift :: "Shift option"

definition initialState :: CalendarState where
  "initialState =
     \<lparr>isSelecting = False, dragDay = None, dragStartHour = None, dragCurrentHour = None,
      activeShiftId = None, interactionType = None, interactionOffset = Fin 0,
      interactionInitialHours = None, tempShift = None\<rparr>"

text \<open>
  The callbacks a pointer release may fire: \<open>onAddShift(date, startTime?, endTime?)\<close>
  and \<open>onSaveShift(shift)\<close>.
\<close>

datatype CalendarEvent =
  OnAddShift string "string option" "string option"
| OnSaveShift Shift

text \<open>
  The grid element is \<open>gridRef.current\<close>: \<open>None\<close> when the reference is null, else the
  height of its bounding rectangle. The pointer's \<open>y\<close> is \<open>e.clientY - rect.top\<close>.
  \<open>onShiftBlock\<close> says whether the event target lies inside a \<open>.shift-block\<close>.
\<close>

definition handleMouseDownOnGrid ::
  "bool \<Rightarrow> bool \<Rightarrow> jsnum option \<Rightarrow> jsnum \<Rightarrow> string \<Rightarrow> CalendarState \<Rightarrow> CalendarState" where
  "handleMouseDownOnGrid readOnly onShiftBlock container y dateStr st =
     (if readOnly then st
      else if onShiftBlock then st
      else (case container of
              None \<Rightarrow> st
            | Some height \<Rightarrow>
                (let hour = getHourFromY y height
                 in st\<lparr>isSelecting := True, dragDay := Some dateStr,
                       dragStartHour := Some hour, dragCurrentHour := Some hour\<rparr>)))"

definition handleMouseDownOnShift ::
  "bool \<Rightarrow> jsnum option \<Rightarrow> jsnum \<Rightarrow> Shift \<Rightarrow> InteractionType \<Rightarrow> CalendarState \<Rightarrow> CalendarState" where
  "handleMouseDownOnShift readOnly container currentY shift type st =
     (if readOnly then st
      else
        (let st1 = st\<lparr>activeShiftId := Some (id' shift), interactionType := Some type,
                       tempShift := Some shift\<rparr>
         in (case container of
               None \<Rightarrow> st1
             | Some height \<Rightarrow>
                 (let currentHour =
                        add64
                          (mul64
                             (div64 (sub64 currentY VERTICAL_PADDING)
                                (sub64 height (mul64 VERTICAL_PADDING (Fin 2))))
                             TOTAL_HOURS)
                          START_HOUR;
                      startHour = hourOfTime (startTime shift);
                      endHour = hourOfTime (endTime shift)
                  in st1\<lparr>interactionInitialHours := Some (startHour, endHour),
                          interactionOffset := sub64 currentHour startHour\<rparr>))))"

text \<open>
  The new start and end of a move or resize (the body of \<open>handleMouseMove\<close> between
  reading the pointer's hour and building the updated shift).
\<close>

definition interactionTimes ::
  "InteractionType \<Rightarrow> jsnum \<times> jsnum \<Rightarrow> jsnum \<Rightarrow> jsnum \<Rightarrow> jsnum \<times> jsnum" where
  "interactionTimes type initialHours offset currentHour =
     (let newStart = fst initialHours;
          newEnd = snd initialHours;
          (newStart, newEnd) =
            (case type of
               ResizeTop \<Rightarrow> (Math_min currentHour (sub64 newEnd (Fin (1 / 2))), newEnd)
             | ResizeBottom \<Rightarrow> (newStart, Math_max currentHour (add64 newStart (Fin (1 / 2))))
             | Move \<Rightarrow>
                 (let duration = sub64 (snd initialHours) (fst initialHours);
                      movedStart = sub64 currentHour offset
                  in (movedStart, add64 movedStart duration)));
          newStart = Math_max START_HOUR (Math_min (sub64 END_HOUR (Fin (1 / 2))) newStart);
          newEnd = Math_max (add64 newStart (Fin (1 / 2))) (Math_min END_HOUR newEnd)
      in (newStart, newEnd))"

definition handleMouseMove :: "jsnum option \<Rightarrow> jsnum \<Rightarrow> CalendarState \<Rightarrow> CalendarState" where
  "handleMouseMove container y st =
     (case container of
        None \<Rightarrow> st
      | Some height \<Rightarrow>
          (if isSelecting st \<and> \<not> falsy (dragDay st)
           then st\<lparr>dragCurrentHour := Some (getHourFromY y height)\<rparr>
           else
             (case (interactionType st, interactionInitialHours st, tempShift st) of
                (Some type, Some initialHours, Some temp) \<Rightarrow>
                  (if falsy (activeShiftId st) then st
                   else
                     (let currentHour = getHourFromY64 y height;
                          (newStart, newEnd) =
                            interactionTimes type initialHours (interactionOffset st) currentHour;
                          updatedShift =
                            temp\<lparr>startTime := formatTimeFromHour newStart,
                                 endTime := formatTimeFromHour newEnd,
                                 hours := to_double (toFixed2 (sub64 newEnd newStart))\<rparr>
                      in st\<lparr>tempShift := Some updatedShift\<rparr>))
              | _ \<Rightarrow> st)))"

definition handleGlobalMouseUp ::
  "Shift list \<Rightarrow> CalendarState \<Rightarrow> CalendarEvent list \<times> CalendarState" where
  "handleGlobalMouseUp shifts st =
     (let created =
            (case (dragDay st, dragStartHour st, dragCurrentHour st) of
               (Some day, Some startHour, Some currentHour) \<Rightarrow>
                 (if isSelecting st \<and> day \<noteq> [] then
                    (let start = Math_min startHour currentHour;
                         end' = Math_max startHour currentHour
                     in if js_ge (js_sub end' start) (Fin (1 / 2))
                        then [OnAddShift day (Some (formatTimeFromHour start))
                                (Some (formatTimeFromHour end'))]
                        else if js_eq startHour currentHour then [OnAddShift day None None]
                        else [])
                  else [])
             | _ \<Rightarrow> []);
          saved =
            (case tempShift st of
               Some temp \<Rightarrow>
                 (if falsy (activeShiftId st) then []
                  else (case find (\<lambda>s. id' s = id' temp) shifts of
                          Some original \<Rightarrow>
                            (if startTime original \<noteq> startTime temp
                                \<or> endTime original \<noteq> endTime temp
                             then [OnSaveShift temp] else [])
                        | None \<Rightarrow> []))
             | None \<Rightarrow> [])
      in (created @ saved,
          st\<lparr>isSelecting := False, dragDay := None, dragStartHour := None,
             dragCurrentHour := None, activeShiftId := None, interactionType := None,
             interactionInitialHours := None, tempShift := None\<rparr>))"

section \<open>components/WeeklyCalendar.tsx: column packing\<close>

text \<open>
  The relational operators on strings compare code units; the time fields are ASCII.
  \<open>localeCompare\<close> is taken to order by code units as well, which is how a collation
  orders two strings of digits with the colon at the same place. \<open>Array.prototype.sort\<close>
  is stable; it is modelled as an insertion sort that keeps equal elements in their order.
\<close>

fun str_lt :: "string \<Rightarrow> string \<Rightarrow> bool" where
  "str_lt [] [] = False"
| "str_lt [] (y # ys) = True"
| "str_lt (x # xs) [] = False"
| "str_lt (x # xs) (y # ys) = ((of_char x :: nat) < of_char y \<or> (x = y \<and> str_lt xs ys))"

definition str_ge :: "string \<Rightarrow> string \<Rightarrow> bool" where
  "str_ge a b = (\<not> str_lt a b)"

definition localeCompare :: "string \<Rightarrow> string \<Rightarrow> int" where
  "localeCompare a b = (if str_lt a b then - 1 else if a = b then 0 else 1)"

fun insert_by :: "('a \<Rightarrow> 'a \<Rightarrow> int) \<Rightarrow> 'a \<Rightarrow> 'a list \<Rightarrow> 'a list" where
  "insert_by cmp x [] = [x]"
| "insert_by cmp x (y # ys) = (if cmp x y \<le> 0 then x # y # ys else y # insert_by cmp x ys)"

definition js_sort :: "('a \<Rightarrow> 'a \<Rightarrow> int) \<Rightarrow> 'a list \<Rightarrow> 'a list" where
  "js_sort cmp xs = foldr (insert_by cmp) xs []"

text \<open>
  The column loop of \<open>renderShiftsForDay\<close>. Reading \<open>endTime\<close> of the last element
  of an empty column would throw a TypeError. \<open>placeInColumn\<close> is the inner \<open>for\<close>
  loop: \<open>None\<close> when the shift was not placed.
\<close>

datatype JsError = TypeError

fun placeInColumn :: "Shift \<Rightarrow> Shift list list \<Rightarrow> JsError + Shift list list option" where
  "placeInColumn shift [] = Inr None"
| "placeInColumn shift (column # rest) =
     (case column of
        [] \<Rightarrow> Inl TypeError
      | _ # _ \<Rightarrow>
          (if str_ge (startTime shift) (endTime (last column))
           then Inr (Some ((column @ [shift]) # rest))
           else (case placeInColumn shift rest of
                   Inl e \<Rightarrow> Inl e
                 | Inr None \<Rightarrow> Inr None
                 | Inr (Some rest') \<Rightarrow> Inr (Some (column # rest')))))"

fun packShifts :: "Shift list \<Rightarrow> Shift list list \<Rightarrow> JsError + Shift list list" where
  "packShifts [] columns = Inr columns"
| "packShifts (shift # others) columns =
     (case placeInColumn shift columns of
        Inl e \<Rightarrow> Inl e
      | Inr (Some columns') \<Rightarrow> packShifts others columns'
      | Inr None \<Rightarrow> packShifts others (columns @ [[shift]]))"

definition dayColumns :: "Shift list \<Rightarrow> JsError + Shift list list" where
  "dayColumns dayShifts =
     packShifts (js_sort (\<lambda>a b. localeCompare (startTime a) (startTime b)) dayShifts) []"

text \<open>
  \<open>renderShiftsForDay\<close> on the shifts of one day: for each column the shifts with their
  \<open>left\<close> and \<open>width\<close> in percent, \<open>None\<close> for a shift whose employee is unknown.
  (The \<open>top\<close> and \<open>height\<close> of the style are not modelled.)
\<close>

definition renderShiftsForDay ::
  "string list \<Rightarrow> Shift list \<Rightarrow> JsError + (Shift \<times> jsnum \<times> jsnum) option list list" where
  "renderShiftsForDay employees dayShifts =
     (case dayColumns dayShifts of
        Inl e \<Rightarrow> Inl e
      | Inr columns \<Rightarrow>
          Inr (map (\<lambda>(colIdx, col).
                 (let width = js_div (Fin 100) (Fin (of_nat (length columns)));
                      left = js_mul (Fin (of_nat colIdx)) width
                  in map (\<lambda>shift. if employeeId shift \<in> set employees
                                   then Some (shift, left, width) else None) col))
               (enumerate 0 columns)))"

section \<open>Calendar days (date-fns on dates without a time of day)\<close>

text \<open>
  The \<open>Date\<close> values of the week paste are all local midnights: \<open>startOfWeek\<close> and
  \<open>parseISO\<close> of a \<open>yyyy-MM-dd\<close> string drop or lack the time of day. They are modelled
  as calendar days (year, month, day) of the proleptic Gregorian calendar; \<open>None\<close> is an
  Invalid Date. \<open>day_number\<close> counts the days since 0001-01-01, a Monday; \<open>getDay\<close> is
  0 on a Sunday. \<open>addDays\<close> steps through the calendar day by day, as
  \<open>setDate(getDate() + n)\<close> does. \<open>parseISO\<close> is modelled on the \<open>yyyy-MM-dd\<close> strings the
  \<open>Shift\<close> type documents.
\<close>


type_synonym CalendarDay = "int \<times> nat \<times> nat"

definition leap_year :: "int \<Rightarrow> bool" where
  "leap_year y = (y mod 4 = 0 \<and> (y mod 100 \<noteq> 0 \<or> y mod 400 = 0))"

definition days_in_month :: "int \<Rightarrow> nat \<Rightarrow> nat" where
  "days_in_month y m =
     (if m = 2 then (if leap_year y then 29 else 28)
      else if m = 4 \<or> m = 6 \<or> m = 9 \<or> m = 11 then 30 else 31)"

fun valid_date :: "CalendarDay \<Rightarrow> bool" where
  "valid_date (y, m, d) = (1 \<le> m \<and> m \<le> 12 \<and> 1 \<le> d \<and> d \<le> days_in_month y m)"

fun days_before_month :: "int \<Rightarrow> nat \<Rightarrow> nat" where
  "days_before_month y 0 = 0"
| "days_before_month y (Suc m) = (if m = 0 then 0 else days_before_month y m + days_in_month y m)"

definition days_before_year :: "int \<Rightarrow> int" where
  "days_before_year y = 365 * (y - 1) + (y - 1) div 4 - (y - 1) div 100 + (y - 1) div 400"

fun day_number :: "CalendarDay \<Rightarrow> int" where
  "day_number (y, m, d) = days_before_year y + int (days_before_month y m) + int d - 1"

definition getDay :: "CalendarDay \<Rightarrow> nat" where
  "getDay c = nat ((day_number c + 1) mod 7)"

fun next_day :: "CalendarDay \<Rightarrow> CalendarDay" where
  "next_day (y, m, d) =
     (if d < days_in_month y m then (y, m, d + 1)
      else if m < 12 then (y, m + 1, 1) else (y + 1, 1, 1))"

fun prev_day :: "CalendarDay \<Rightarrow> CalendarDay" where
  "prev_day (y, m, d) =
     (if 1 < d then (y, m, d - 1)
      else if 1 < m then (y, m - 1, days_in_month y (m - 1)) else (y - 1, 12, 31))"

fun iterate :: "nat \<Rightarrow> ('a \<Rightarrow> 'a) \<Rightarrow> 'a \<Rightarrow> 'a" where
  "iterate 0 f x = x"
| "iterate (Suc n) f x = iterate n f (f x)"

definition addDays :: "CalendarDay \<Rightarrow> int \<Rightarrow> CalendarDay" where
  "addDays c n = (if 0 \<le> n then iterate (nat n) next_day c else iterate (nat (- n)) prev_day c)"

definition startOfWeek :: "CalendarDay \<Rightarrow> CalendarDay" where
  "startOfWeek c = addDays c (- int (getDay c))"

definition isSameWeek :: "CalendarDay option \<Rightarrow> CalendarDay option \<Rightarrow> bool" where
  "isSameWeek a b =
     (case (a, b) of (Some x, Some y) \<Rightarrow> startOfWeek x = startOfWeek y | _ \<Rightarrow> False)"

definition differenceInDays :: "CalendarDay \<Rightarrow> CalendarDay \<Rightarrow> int" where
  "differenceInDays later earlier = day_number later - day_number earlier"

definition parseISO :: "string \<Rightarrow> CalendarDay option" where
  "parseISO s =
     (if length s = 10 \<and> s ! 4 = CHR ''-'' \<and> s ! 7 = CHR ''-'' then
        (case (digits_value 0 (take 4 s), digits_value 0 (take 2 (drop 5 s)),
               digits_value 0 (drop 8 s)) of
           (Some y, Some m, Some d) \<Rightarrow>
             (if valid_date (int y, m, d) then Some (int y, m, d) else None)
         | _ \<Rightarrow> None)
      else None)"

definition padStart4 :: "string \<Rightarrow> string" where
  "padStart4 s = replicate (4 - length s) CHR ''0'' @ s"

fun format_date :: "CalendarDay \<Rightarrow> string" where
  "format_date (y, m, d) =
     padStart4 (nat_toString (nat (if 0 < y then y else 1 - y))) @ ''-''
       @ padStart2 (nat_toString m) @ ''-'' @ padStart2 (nat_toString d)"

section \<open>components/ShiftModal.tsx\<close>

text \<open>
  The form state of the modal. \<open>handleSubmit\<close> returns the new form state and the
  argument of the \<open>onSave\<close> call, if it makes one. \<open>now\<close> is \<open>Date.now().toString()\<close>.
\<close>

record ModalState =
  form_employeeId :: string
  form_date :: string
  form_startTime :: string
  form_endTime :: string
  form_error :: "string option"

definition handleSubmit ::
  "Shift list \<Rightarrow> Shift option \<Rightarrow> string \<Rightarrow> ModalState \<Rightarrow> ModalState \<times> Shift option" where
  "handleSubmit shifts editingShift now st0 =
     (let st = st0\<lparr>form_error := None\<rparr>
      in if form_employeeId st = []
         then (st\<lparr>form_error := Some ''Please select a staff member.''\<rparr>, None)
         else
           (let hours' = calculateShiftHours (form_startTime st) (form_endTime st)
            in if js_le hours' (Fin 0)
               then (st\<lparr>form_error := Some ''End time must be after start time.''\<rparr>, None)
               else
                 (let newShift =
                        \<lparr>id' = (case editingShift of
                                  Some e \<Rightarrow> (if id' e \<noteq> [] then id' e else now)
                                | None \<Rightarrow> now),
                         employeeId = form_employeeId st, date = form_date st,
                         startTime = form_startTime st, endTime = form_endTime st,
                         hours = hours'\<rparr>
                  in if checkOverlap shifts (toPartial newShift)
                     then (st\<lparr>form_error := Some
                             ''Schedule Conflict: This employee is already assigned to a shift during this time.''\<rparr>,
                           None)
                     else (st, Some newShift))))"

section \<open>The application component: writes to the store\<close>

datatype UserRole = Admin | Staff

text \<open>
  The requests sent to the store: \<open>setDoc\<close> on the document of an id, \<open>addDoc\<close> of a
  shift without id, and the commit of a batch of new documents. A failing request is
  caught and logged by the caller; the model records that it was issued.
\<close>

datatype Write =
  SetDoc string Shift
| AddDoc PartialShift
| BatchCommit "PartialShift list"

definition withoutId :: "string \<Rightarrow> string \<Rightarrow> string \<Rightarrow> string \<Rightarrow> jsnum \<Rightarrow> PartialShift" where
  "withoutId e d st en h =
     \<lparr>id_opt = None, employeeId_opt = Some e, date_opt = Some d, startTime_opt = Some st,
      endTime_opt = Some en, hours_opt = Some h\<rparr>"

definition saveShift :: "UserRole option \<Rightarrow> Shift list \<Rightarrow> Shift \<Rightarrow> Write list" where
  "saveShift currentUser shifts shift =
     (if currentUser \<noteq> Some Admin then []
      else (case find (\<lambda>s. id' s = id' shift) shifts of
              Some existing \<Rightarrow> [SetDoc (id' shift) shift]
            | None \<Rightarrow>
                [AddDoc (withoutId (employeeId shift) (date shift) (startTime shift)
                           (endTime shift) (hours shift))]))"

text \<open>
  The clipboard is only ever set by the modal's copy button, to the employee, start and
  end of a shift.
\<close>

record CopiedShift =
  copied_employeeId :: string
  copied_startTime :: string
  copied_endTime :: string

text \<open>\<open>handlePasteShift\<close> returns the text of the alert it shows, if any, and its writes.\<close>

definition handlePasteShift ::
  "UserRole option \<Rightarrow> CopiedShift option \<Rightarrow> Shift list \<Rightarrow> string \<Rightarrow> string option \<times> Write list" where
  "handlePasteShift currentUser copiedShift shifts date' =
     (if currentUser \<noteq> Some Admin then (None, [])
      else (case copiedShift of
              None \<Rightarrow> (None, [])
            | Some copied \<Rightarrow>
                (let newShiftData =
                       withoutId (copied_employeeId copied) date' (copied_startTime copied)
                         (copied_endTime copied)
                         (calculateShiftHours (copied_startTime copied) (copied_endTime copied))
                 in if checkOverlap shifts (newShiftData\<lparr>id_opt := Some ''temp-check''\<rparr>)
                    then (Some (''Conflict: This employee already has a shift at this time on '' @ date'), [])
                    else (None, [AddDoc newShiftData]))))"

text \<open>
  The calendar's callbacks as the application wires them: \<open>onSaveShift\<close> is \<open>saveShift\<close>;
  \<open>onAddShift\<close> opens the modal and writes nothing.
\<close>

fun dispatchEvent :: "UserRole option \<Rightarrow> Shift list \<Rightarrow> CalendarEvent \<Rightarrow> Write list" where
  "dispatchEvent currentUser shifts (OnSaveShift shift) = saveShift currentUser shifts shift"
| "dispatchEvent currentUser shifts (OnAddShift d st en) = []"

definition commitDrag :: "UserRole option \<Rightarrow> Shift list \<Rightarrow> CalendarState \<Rightarrow> Write list" where
  "commitDrag currentUser shifts st =
     concat (map (dispatchEvent currentUser shifts) (fst (handleGlobalMouseUp shifts st)))"

text \<open>
  \<open>handlePasteWeek\<close> returns the text of its alert, if any, and its writes; \<open>confirmed\<close>
  is the answer to its confirmation dialog. Formatting an Invalid Date throws before
  the batch is committed.
\<close>

definition handlePasteWeek ::
  "CalendarDay option \<Rightarrow> UserRole option \<Rightarrow> bool \<Rightarrow> Shift list \<Rightarrow> CalendarDay
     \<Rightarrow> string option \<times> Write list" where
  "handlePasteWeek copiedWeekDate currentUser confirmed shifts targetWeekStart =
     (case copiedWeekDate of
        None \<Rightarrow> (None, [])
      | Some copied \<Rightarrow>
          (if currentUser \<noteq> Some Admin then (None, [])
           else
             (let sourceStart = startOfWeek copied;
                  targetStart = startOfWeek targetWeekStart;
                  shiftsToCopy =
                    filter (\<lambda>s. isSameWeek (parseISO (date s)) (Some sourceStart)) shifts
              in if shiftsToCopy = []
                 then (Some ''No shifts found in the source week to copy.'', [])
                 else if \<not> confirmed then (None, [])
                 else
                   (let daysDiff = differenceInDays targetStart sourceStart
                    in (case those (map (\<lambda>s. map_option
                                   (\<lambda>originalDate.
                                      withoutId (employeeId s)
                                        (format_date (addDays originalDate daysDiff))
                                        (startTime s) (endTime s) (hours s))
                                   (parseISO (date s))) shiftsToCopy) of
                          None \<Rightarrow> (None, [])
                        | Some docs \<Rightarrow> (None, [BatchCommit docs]))))))"


section \<open>The specification's notions\<close>

text \<open>Rounding to two decimal places, a half upwards.\<close>

definition round2 :: "rat \<Rightarrow> rat" where
  "round2 x = of_int (round (x * 100)) / 100"

text \<open>
  The conflict of a candidate with one existing shift, in the specification's words: the
  same employee and date, another id, and \<open>candidateStart < existingEnd\<close> and
  \<open>candidateEnd > existingStart\<close> in minutes since midnight.
\<close>

definition conflicts_with :: "PartialShift \<Rightarrow> Shift \<Rightarrow> bool" where
  "conflicts_with c s =
     (Some (employeeId s) = employeeId_opt c \<and> Some (date s) = date_opt c
      \<and> Some (id' s) \<noteq> id_opt c
      \<and> (case (Option.bind (startTime_opt c) parse_HHmm, Option.bind (endTime_opt c) parse_HHmm,
                parse_HHmm (startTime s), parse_HHmm (endTime s)) of
            (Some cStart, Some cEnd, Some sStart, Some sEnd) \<Rightarrow> cStart < sEnd \<and> cEnd > sStart
          | _ \<Rightarrow> False))"

definition all_present :: "PartialShift \<Rightarrow> bool" where
  "all_present c =
     (\<not> falsy (employeeId_opt c) \<and> \<not> falsy (date_opt c)
      \<and> \<not> falsy (startTime_opt c) \<and> \<not> falsy (endTime_opt c))"

definition touching :: "PartialShift \<Rightarrow> Shift \<Rightarrow> bool" where
  "touching c s =
     (Option.bind (endTime_opt c) parse_HHmm = parse_HHmm (startTime s)
      \<or> Option.bind (startTime_opt c) parse_HHmm = parse_HHmm (endTime s))"

text \<open>A shift of employee E on 2024-01-10, for the worked examples.\<close>

definition shift_E :: "string \<Rightarrow> string \<Rightarrow> string \<Rightarrow> Shift" where
  "shift_E i st en =
     \<lparr>id' = i, employeeId = ''E'', date = ''2024-01-10'', startTime = st, endTime = en,
      hours = calculateShiftHours st en\<rparr>"

text \<open>The snapped and clamped hour of an exact position on the hour axis.\<close>

definition snapHour :: "rat \<Rightarrow> rat" where
  "snapHour q = max 8 (min 23 (of_int \<lfloor>q * 2 + 1 / 2\<rfloor> / 2))"

text \<open>
  A pointer position over the grid: the offset \<open>y\<close> and the height of the grid, both
  finite. The position is regular unless the usable height is zero and the pointer is on
  the upper padding line, where the hour is \<open>0 / 0\<close>.
\<close>

definition regular :: "rat \<times> rat \<Rightarrow> bool" where
  "regular p = (snd p \<noteq> 24 \<or> fst p \<noteq> 12)"

definition pointerMoves :: "(rat \<times> rat) list \<Rightarrow> CalendarState \<Rightarrow> CalendarState" where
  "pointerMoves ms st = foldl (\<lambda>st p. handleMouseMove (Some (Fin (snd p))) (Fin (fst p)) st) st ms"

text \<open>
  A create-drag: a pointer press on empty grid space of a day column in the idle state,
  followed by pointer moves. A move or resize: a press on a shift block, followed by
  pointer moves.
\<close>

definition selectingSession :: "rat \<times> rat \<Rightarrow> string \<Rightarrow> (rat \<times> rat) list \<Rightarrow> CalendarState" where
  "selectingSession p0 day ms =
     pointerMoves ms
       (handleMouseDownOnGrid False False (Some (Fin (snd p0))) (Fin (fst p0)) day initialState)"

definition interactingSession ::
  "rat \<times> rat \<Rightarrow> Shift \<Rightarrow> InteractionType \<Rightarrow> (rat \<times> rat) list \<Rightarrow> CalendarState" where
  "interactingSession p0 shift type ms =
     pointerMoves ms
       (handleMouseDownOnShift False (Some (Fin (snd p0))) (Fin (fst p0)) shift type initialState)"

text \<open>
  Column packing in the specification's words: sort by start time, stably; place each
  shift into the first column whose last shift ends no later than the shift starts, else
  open a new column. Times are minutes since midnight.
\<close>

definition start_min :: "Shift \<Rightarrow> nat" where
  "start_min s = (case parse_HHmm (startTime s) of Some m \<Rightarrow> m | None \<Rightarrow> 0)"

definition end_min :: "Shift \<Rightarrow> nat" where
  "end_min s = (case parse_HHmm (endTime s) of Some m \<Rightarrow> m | None \<Rightarrow> 0)"

definition valid_times :: "Shift \<Rightarrow> bool" where
  "valid_times s = (parse_HHmm (startTime s) \<noteq> None \<and> parse_HHmm (endTime s) \<noteq> None)"

fun spec_place :: "Shift \<Rightarrow> Shift list list \<Rightarrow> Shift list list" where
  "spec_place s [] = [[s]]"
| "spec_place s (c # cs) =
     (if c \<noteq> [] \<and> end_min (last c) \<le> start_min s then (c @ [s]) # cs else c # spec_place s cs)"

definition packDay :: "Shift list \<Rightarrow> Shift list list" where
  "packDay shifts = foldl (\<lambda>cols s. spec_place s cols) [] (sort_key start_min shifts)"

definition columns_ok :: "Shift list list \<Rightarrow> bool" where
  "columns_ok cols = (\<forall>col \<in> set cols. col \<noteq> [] \<and> (\<forall>z \<in> set col. valid_times z))"

text \<open>The layout of packed columns: the width is 100 divided by the number of columns.\<close>

definition layoutOf :: "string list \<Rightarrow> Shift list list \<Rightarrow> (Shift \<times> jsnum \<times> jsnum) option list list" where
  "layoutOf employees columns =
     map (\<lambda>(i, col).
            map (\<lambda>s. if employeeId s \<in> set employees
                      then Some (s, Fin (of_nat i * (100 / of_nat (length columns))),
                                 Fin (100 / of_nat (length columns)))
                      else None) col)
         (enumerate 0 columns)"

(* PROPERTIES *)

section \<open>Properties of the helpers\<close>

lemma time_lt_iff: "time_lt a b = (\<exists>x y. a = Some x \<and> b = Some y \<and> x < y)"
  by (auto simp: time_lt_def split: option.splits)

lemma parse_HHmm_bound: "parse_HHmm s = Some a \<Longrightarrow> a < 1440"
  by (cases s rule: parse_HHmm.cases) (auto split: option.splits if_splits)

lemma toFixed2_nonneg: "0 \<le> x \<Longrightarrow> toFixed2 (Fin x) = Fin (round2 x)"
  by (simp add: round2_def round_def)

lemma calculateShiftHours_Some:
  assumes "parse_HHmm s = Some a" "parse_HHmm e = Some b"
  shows "calculateShiftHours s e =
     Fin (round2 (of_int (if b < a then int b + 1440 - int a else int b - int a) / 60))"
proof -
  let ?m = "of_int (int b - int a) :: rat"
  have a: "a < 1440" using assms(1) by (rule parse_HHmm_bound)
  have diff: "differenceInMinutes (parse_HHmm e) (parse_HHmm s) = Fin ?m"
    by (simp add: differenceInMinutes_def assms)
  show ?thesis
  proof (cases "b < a")
    case True
    have lt: "js_lt (Fin ?m) (Fin 0)" using True by simp
    have eq: "?m + 1440 = of_int (int b + 1440 - int a)" by simp
    have nn: "(0::rat) \<le> of_int (int b + 1440 - int a) / 60" using a by simp
    have "calculateShiftHours s e = toFixed2 (js_div (js_add (Fin ?m) (Fin 1440)) (Fin 60))"
      unfolding calculateShiftHours_def Let_def diff using lt by (simp only: if_True)
    also have "\<dots> = toFixed2 (Fin (of_int (int b + 1440 - int a) / 60))"
      unfolding js_add.simps eq by (simp del: toFixed2.simps)
    also have "\<dots> = Fin (round2 (of_int (int b + 1440 - int a) / 60))"
      using nn by (rule toFixed2_nonneg)
    finally show ?thesis using True by simp
  next
    case False
    have lt: "\<not> js_lt (Fin ?m) (Fin 0)" using False by simp
    have nn: "(0::rat) \<le> ?m / 60" using False by simp
    have "calculateShiftHours s e = toFixed2 (js_div (Fin ?m) (Fin 60))"
      unfolding calculateShiftHours_def Let_def diff using lt by (simp only: if_False)
    also have "\<dots> = toFixed2 (Fin (?m / 60))"
      by (simp del: toFixed2.simps)
    also have "\<dots> = Fin (round2 (?m / 60))"
      using nn by (rule toFixed2_nonneg)
    finally show ?thesis using False by simp
  qed
qed

lemma round2_near: "\<bar>round2 x - x\<bar> \<le> 1 / 200"
proof -
  have "\<bar>of_int (round (x * 100)) - x * 100\<bar> \<le> 1 / 2"
    by (rule of_int_round_abs_le)
  then show ?thesis unfolding round2_def by (simp add: field_simps abs_le_iff)
qed

lemma round2_mono: "x \<le> y \<Longrightarrow> round2 x \<le> round2 y"
  unfolding round2_def by (simp add: round_mono divide_right_mono)

lemma round2_0: "round2 0 = 0"
  by (simp add: round2_def)

lemma round2_max: "round2 (1439 / 60) < 24"
  by (simp add: round2_def round_def)

lemma round2_min: "0 < round2 (1 / 60)"
  by (simp add: round2_def round_def)

lemma conflicts_with_alt:
  "conflicts_with c s =
     (Some (employeeId s) = employeeId_opt c \<and> Some (date s) = date_opt c
      \<and> Some (id' s) \<noteq> id_opt c
      \<and> time_lt (Option.bind (startTime_opt c) parse_HHmm) (parse_HHmm (endTime s))
      \<and> time_lt (parse_HHmm (startTime s)) (Option.bind (endTime_opt c) parse_HHmm))"
  by (auto simp: conflicts_with_def time_lt_def split: option.splits)

lemmas eval_checkOverlap =
  checkOverlap_def conflicts_with_def all_present_def touching_def shift_E_def toPartial_def
  falsy_def time_lt_def digit_val_def

text \<open>
  C1. \<open>checkOverlap\<close> is true exactly when some existing shift of the same employee and
  date with another id overlaps the candidate as a half-open interval of minutes; shifts
  that only touch do not conflict; a candidate missing its employee, date, start or end
  never conflicts. Against 09:00--12:00, the candidate 11:00--13:00 conflicts and
  12:00--14:00 does not.
\<close>

theorem checkOverlap_spec:
  "(all_present c \<longrightarrow> checkOverlap shifts c = (\<exists>s \<in> set shifts. conflicts_with c s))
   \<and> (\<not> all_present c \<longrightarrow> \<not> checkOverlap shifts c)
   \<and> (touching c s \<longrightarrow> \<not> conflicts_with c s)
   \<and> checkOverlap [shift_E ''a'' ''09:00'' ''12:00'']
        (toPartial (shift_E ''b'' ''11:00'' ''13:00''))
   \<and> \<not> checkOverlap [shift_E ''a'' ''09:00'' ''12:00'']
        (toPartial (shift_E ''b'' ''12:00'' ''14:00''))"
proof (intro conjI impI)
  assume "all_present c"
  then show "checkOverlap shifts c = (\<exists>s \<in> set shifts. conflicts_with c s)"
    by (auto simp: checkOverlap_def conflicts_with_alt all_present_def list_ex_iff Let_def)
next
  assume "\<not> all_present c"
  then show "\<not> checkOverlap shifts c"
    by (auto simp: checkOverlap_def all_present_def)
next
  assume "touching c s"
  then show "\<not> conflicts_with c s"
    by (auto simp: conflicts_with_def touching_def split: option.splits)
next
  show "checkOverlap [shift_E ''a'' ''09:00'' ''12:00'']
      (toPartial (shift_E ''b'' ''11:00'' ''13:00''))"
    by (simp add: eval_checkOverlap)
next
  show "\<not> checkOverlap [shift_E ''a'' ''09:00'' ''12:00'']
      (toPartial (shift_E ''b'' ''12:00'' ''14:00''))"
    by (simp add: eval_checkOverlap)
qed

theorem checkOverlap_spec_witness:
  "all_present (toPartial (shift_E ''b'' ''11:00'' ''13:00''))
   \<and> conflicts_with (toPartial (shift_E ''b'' ''11:00'' ''13:00'')) (shift_E ''a'' ''09:00'' ''12:00'')
   \<and> checkOverlap [shift_E ''a'' ''09:00'' ''12:00''] (toPartial (shift_E ''b'' ''11:00'' ''13:00''))
   \<and> \<not> all_present ((toPartial (shift_E ''b'' ''11:00'' ''13:00''))\<lparr>employeeId_opt := None\<rparr>)
   \<and> \<not> checkOverlap [shift_E ''a'' ''09:00'' ''12:00'']
         ((toPartial (shift_E ''b'' ''11:00'' ''13:00''))\<lparr>employeeId_opt := None\<rparr>)
   \<and> touching (toPartial (shift_E ''b'' ''12:00'' ''14:00'')) (shift_E ''a'' ''09:00'' ''12:00'')
   \<and> \<not> conflicts_with (toPartial (shift_E ''b'' ''12:00'' ''14:00'')) (shift_E ''a'' ''09:00'' ''12:00'')"
proof -
  let ?A = "shift_E ''a'' ''09:00'' ''12:00''"
  let ?B = "toPartial (shift_E ''b'' ''11:00'' ''13:00'')"
  let ?C = "toPartial (shift_E ''b'' ''12:00'' ''14:00'')"
  have p: "all_present ?B" by (simp add: eval_checkOverlap)
  have c: "conflicts_with ?B ?A" by (simp add: eval_checkOverlap)
  have n: "\<not> all_present (?B\<lparr>employeeId_opt := None\<rparr>)" by (simp add: eval_checkOverlap)
  have t: "touching ?C ?A" by (simp add: eval_checkOverlap)
  have 1: "checkOverlap [?A] ?B"
    using checkOverlap_spec [of ?B "[?A]"] p c by simp
  have 2: "\<not> checkOverlap [?A] (?B\<lparr>employeeId_opt := None\<rparr>)"
    using checkOverlap_spec [of "?B\<lparr>employeeId_opt := None\<rparr>" "[?A]"] n by blast
  have 3: "\<not> conflicts_with ?C ?A"
    using checkOverlap_spec [of ?C _ ?A] t by blast
  show ?thesis using p c n t 1 2 3 by blast
qed

text \<open>
  C8. For valid times with start before end, both within 08:00--23:00,
  \<open>calculateShiftHours\<close> is the number of minutes between them divided by 60 and rounded
  to two decimal places: a multiple of one hundredth within half a hundredth of the
  exact quotient.
\<close>

theorem calculateShiftHours_round2:
  assumes "parse_HHmm start = Some a" "parse_HHmm end' = Some b"
    and "a < b" "480 \<le> a" "b \<le> 1380"
  shows "calculateShiftHours start end' = Fin (round2 (of_nat (b - a) / 60))
       \<and> (\<exists>k::int. round2 (of_nat (b - a) / 60) = of_int k / 100)
       \<and> \<bar>round2 (of_nat (b - a) / 60) - of_nat (b - a) / 60\<bar> \<le> 1 / 200"
proof -
  have "int b - int a = int (b - a)" using assms(3) by simp
  then have "calculateShiftHours start end' = Fin (round2 (of_nat (b - a) / 60))"
    using calculateShiftHours_Some [OF assms(1,2)] assms(3) by (simp del: of_nat_diff)
  moreover have "\<exists>k::int. round2 (of_nat (b - a) / 60) = of_int k / 100"
    unfolding round2_def by blast
  ultimately show ?thesis using round2_near by blast
qed

theorem calculateShiftHours_round2_witness:
  "parse_HHmm ''09:00'' = Some 540 \<and> parse_HHmm ''17:20'' = Some 1040
   \<and> calculateShiftHours ''09:00'' ''17:20'' = Fin (833 / 100)"
proof -
  have a: "parse_HHmm ''09:00'' = Some 540" by (simp add: digit_val_def)
  have b: "parse_HHmm ''17:20'' = Some 1040" by (simp add: digit_val_def)
  have "\<lfloor>(5003::rat) / 6\<rfloor> = 833" by (rule floor_unique) simp_all
  then have "round2 (of_nat (1040 - 540) / 60) = 833 / 100"
    by (simp add: round2_def round_def)
  then show ?thesis using calculateShiftHours_round2 [OF a b] a b by simp
qed

text \<open>
  C10. For valid times \<open>calculateShiftHours\<close> is a number in [0, 24): when the end is
  before the start, 24 hours are added to the difference and the result is positive;
  equal times give exactly 0.
\<close>

theorem calculateShiftHours_range:
  assumes "parse_HHmm start = Some a" "parse_HHmm end' = Some b"
  shows "\<exists>r. calculateShiftHours start end' = Fin r \<and> 0 \<le> r \<and> r < 24
     \<and> (b < a \<longrightarrow> r = round2 ((of_nat b + 1440 - of_nat a) / 60) \<and> 0 < r)
     \<and> (a = b \<longrightarrow> r = 0)"
proof -
  define d where "d = (if b < a then int b + 1440 - int a else int b - int a)"
  have a: "a < 1440" and b: "b < 1440" using assms by (auto dest: parse_HHmm_bound)
  have d0: "0 \<le> d" and d1: "d \<le> 1439" using a b by (auto simp: d_def)
  have eq: "calculateShiftHours start end' = Fin (round2 (of_int d / 60))"
    unfolding d_def by (rule calculateShiftHours_Some [OF assms])
  have "round2 0 \<le> round2 (of_int d / 60)" using d0 by (intro round2_mono) simp
  then have r0: "0 \<le> round2 (of_int d / 60)" by (simp add: round2_0)
  have "round2 (of_int d / 60) \<le> round2 (1439 / 60)" using d1 by (intro round2_mono) simp
  then have r1: "round2 (of_int d / 60) < 24" using round2_max by simp
  have wrap: "0 < round2 (of_int d / 60)"
    "round2 (of_int d / 60) = round2 ((of_nat b + 1440 - of_nat a) / 60)" if "b < a"
  proof -
    have "1 \<le> d" using that a by (simp add: d_def)
    then have "round2 (1 / 60) \<le> round2 (of_int d / 60)" by (intro round2_mono) simp
    then show "0 < round2 (of_int d / 60)" using round2_min by simp
    show "round2 (of_int d / 60) = round2 ((of_nat b + 1440 - of_nat a) / 60)"
      using that by (simp add: d_def)
  qed
  have same: "round2 (of_int d / 60) = 0" if "a = b" using that by (simp add: d_def round2_0)
  show ?thesis using eq r0 r1 wrap same by blast
qed

theorem calculateShiftHours_range_witness:
  "parse_HHmm ''17:00'' = Some 1020 \<and> parse_HHmm ''09:00'' = Some 540
   \<and> calculateShiftHours ''17:00'' ''09:00'' = Fin 16
   \<and> calculateShiftHours ''09:00'' ''09:00'' = Fin 0"
proof -
  have a: "parse_HHmm ''17:00'' = Some 1020" by (simp add: digit_val_def)
  have b: "parse_HHmm ''09:00'' = Some 540" by (simp add: digit_val_def)
  have "\<lfloor>(3201::rat) / 2\<rfloor> = 1600" by (rule floor_unique) simp_all
  then have r: "round2 ((of_nat 540 + 1440 - of_nat 1020) / 60) = 16"
    by (simp add: round2_def round_def)
  have 1: "calculateShiftHours ''17:00'' ''09:00'' = Fin 16"
    using calculateShiftHours_range [OF a b] r by auto
  have 2: "calculateShiftHours ''09:00'' ''09:00'' = Fin 0"
    using calculateShiftHours_range [OF b b] by auto
  show ?thesis using a b 1 2 by simp
qed

section \<open>Properties of the time grid\<close>

lemma Math_max_Fin: "Math_max (Fin a) (Fin b) = Fin (max a b)"
  by (simp add: max_def)

lemma Math_min_Fin: "Math_min (Fin a) (Fin b) = Fin (min a b)"
  by (simp add: min_def)

lemma getHourFromY_Fin:
  assumes "h \<noteq> 24"
  shows "getHourFromY (Fin y) (Fin h) = Fin (snapHour ((y - 12) / (h - 24) * 15 + 8))"
  using assms
  by (simp add: getHourFromY_def START_HOUR_def END_HOUR_def TOTAL_HOURS_def SNAP_MINUTES_def
      VERTICAL_PADDING_def js_sub_def Let_def Math_max_Fin Math_min_Fin snapHour_def
      del: Math_max.simps Math_min.simps)

lemma getHourFromY_24:
  "getHourFromY (Fin y) (Fin 24) = (if y = 12 then NaN else if 12 < y then Fin 23 else Fin 8)"
  by (simp add: getHourFromY_def START_HOUR_def END_HOUR_def TOTAL_HOURS_def SNAP_MINUTES_def
      VERTICAL_PADDING_def js_sub_def Let_def)

lemma snapHour_half: "\<exists>k::int. snapHour q = of_int k / 2 \<and> 16 \<le> k \<and> k \<le> 46"
proof -
  let ?n = "\<lfloor>q * 2 + 1 / 2\<rfloor>"
  consider "?n < 16" | "16 \<le> ?n" "?n \<le> 46" | "46 < ?n" by linarith
  then show ?thesis
  proof cases
    case 1
    then have "(of_int ?n :: rat) / 2 \<le> 8" by simp
    then have "snapHour q = of_int 16 / 2" by (simp add: snapHour_def)
    then show ?thesis by (intro exI[of _ 16]) simp
  next
    case 2
    then have "8 \<le> (of_int ?n :: rat) / 2" "(of_int ?n :: rat) / 2 \<le> 23" by simp_all
    then have "snapHour q = of_int ?n / 2" by (simp add: snapHour_def)
    then show ?thesis using 2 by blast
  next
    case 3
    then have "23 \<le> (of_int ?n :: rat) / 2" by simp
    then have "snapHour q = of_int 46 / 2" by (simp add: snapHour_def)
    then show ?thesis by (intro exI[of _ 46]) simp
  qed
qed

lemma snapHour_range: "8 \<le> snapHour q \<and> snapHour q \<le> 23"
  by (simp add: snapHour_def)

lemma snapHour_mono: "p \<le> q \<Longrightarrow> snapHour p \<le> snapHour q"
proof -
  assume "p \<le> q"
  then have "\<lfloor>p * 2 + 1 / 2\<rfloor> \<le> \<lfloor>q * 2 + 1 / 2\<rfloor>" by (intro floor_mono) simp
  then have "(of_int \<lfloor>p * 2 + 1 / 2\<rfloor> :: rat) / 2 \<le> of_int \<lfloor>q * 2 + 1 / 2\<rfloor> / 2" by simp
  then show ?thesis unfolding snapHour_def by (intro max.mono min.mono) simp_all
qed

lemma getHourFromY_cases:
  "getHourFromY (Fin y) (Fin h) = NaN \<and> h = 24 \<and> y = 12
   \<or> (\<exists>k::int. getHourFromY (Fin y) (Fin h) = Fin (of_int k / 2) \<and> 16 \<le> k \<and> k \<le> 46)"
proof (cases "h = 24")
  case True
  have "\<exists>k::int. Fin 23 = Fin (of_int k / 2) \<and> 16 \<le> k \<and> k \<le> 46" by (intro exI[of _ 46]) simp
  moreover have "\<exists>k::int. Fin 8 = Fin (of_int k / 2) \<and> 16 \<le> k \<and> k \<le> 46" by (intro exI[of _ 16]) simp
  ultimately show ?thesis using True by (simp add: getHourFromY_24)
next
  case False
  then show ?thesis using snapHour_half by (simp add: getHourFromY_Fin)
qed

lemma getHourFromY_mono:
  assumes "24 < h" "y1 \<le> y2"
  shows "\<exists>a b. getHourFromY (Fin y1) (Fin h) = Fin a \<and> getHourFromY (Fin y2) (Fin h) = Fin b \<and> a \<le> b"
proof -
  have "(y1 - 12) / (h - 24) \<le> (y2 - 12) / (h - 24)" using assms by (simp add: divide_right_mono)
  then have "(y1 - 12) / (h - 24) * 15 + 8 \<le> (y2 - 12) / (h - 24) * 15 + 8"
    by (intro add_right_mono mult_right_mono) simp_all
  then have "snapHour ((y1 - 12) / (h - 24) * 15 + 8) \<le> snapHour ((y2 - 12) / (h - 24) * 15 + 8)"
    by (rule snapHour_mono)
  then show ?thesis using assms(1) by (simp add: getHourFromY_Fin)
qed


lemma getHourFromY_regular:
  assumes "regular (y, h)"
  shows "\<exists>k::int. getHourFromY (Fin y) (Fin h) = Fin (of_int k / 2) \<and> 16 \<le> k \<and> k \<le> 46"
  using getHourFromY_cases [of y h] assms by (auto simp: regular_def)

lemma pointerMoves_Cons:
  "pointerMoves (p # ms) st = pointerMoves ms (handleMouseMove (Some (Fin (snd p))) (Fin (fst p)) st)"
  by (simp add: pointerMoves_def)

lemma pointerMoves_Nil: "pointerMoves [] st = st"
  by (simp add: pointerMoves_def)

lemma selecting_moves:
  assumes "isSelecting st" "dragDay st = Some day" "day \<noteq> []" "dragStartHour st = Some s"
    and "\<exists>k::int. dragCurrentHour st = Some (Fin (of_int k / 2)) \<and> 16 \<le> k \<and> k \<le> 46"
    and "tempShift st = None" "list_all regular ms"
  shows "isSelecting (pointerMoves ms st) \<and> dragDay (pointerMoves ms st) = Some day
     \<and> dragStartHour (pointerMoves ms st) = Some s
     \<and> (\<exists>k::int. dragCurrentHour (pointerMoves ms st) = Some (Fin (of_int k / 2)) \<and> 16 \<le> k \<and> k \<le> 46)
     \<and> tempShift (pointerMoves ms st) = None"
  using assms
proof (induction ms arbitrary: st)
  case Nil
  then show ?case by (simp add: pointerMoves_Nil)
next
  case (Cons p ms)
  let ?st = "handleMouseMove (Some (Fin (snd p))) (Fin (fst p)) st"
  have reg: "regular (fst p, snd p)" using Cons.prems(7) by simp
  have eq: "?st = st\<lparr>dragCurrentHour := Some (getHourFromY (Fin (fst p)) (Fin (snd p)))\<rparr>"
    using Cons.prems(1,2,3) by (simp add: handleMouseMove_def falsy_def)
  have cur: "\<exists>k::int. dragCurrentHour ?st = Some (Fin (of_int k / 2)) \<and> 16 \<le> k \<and> k \<le> 46"
    unfolding eq using getHourFromY_regular [OF reg] by simp
  have "isSelecting ?st" "dragDay ?st = Some day" "dragStartHour ?st = Some s" "tempShift ?st = None"
    unfolding eq using Cons.prems by simp_all
  then show ?case unfolding pointerMoves_Cons
    using Cons.IH [of ?st] cur Cons.prems(3,7) by simp
qed

lemma mouseUp_selecting:
  assumes "isSelecting st" "dragDay st = Some day" "day \<noteq> []"
    and "dragStartHour st = Some (Fin (of_int a / 2))" "dragCurrentHour st = Some (Fin (of_int b / 2))"
    and "tempShift st = None"
  shows "fst (handleGlobalMouseUp shifts st) =
     (if a = b then [OnAddShift day None None]
      else [OnAddShift day (Some (formatTimeFromHour (Fin (of_int (min a b) / 2))))
              (Some (formatTimeFromHour (Fin (of_int (max a b) / 2))))])"
proof (cases "a = b")
  case True
  then show ?thesis using assms
    by (simp add: handleGlobalMouseUp_def js_ge_def js_le_def js_sub_def Let_def)
next
  case False
  have mn: "Math_min (Fin (of_int a / 2)) (Fin (of_int b / 2)) = Fin (of_int (min a b) / 2)"
    by (simp add: min_def)
  have mx: "Math_max (Fin (of_int a / 2)) (Fin (of_int b / 2)) = Fin (of_int (max a b) / 2)"
    by (simp add: max_def)
  have "1 \<le> max a b - min a b" using False by (simp add: max_def min_def)
  then have "(1::rat) \<le> of_int (max a b - min a b)" by linarith
  then have "(1::rat) / 2 \<le> of_int (max a b) / 2 - of_int (min a b) / 2" by (simp add: field_simps)
  then have ge: "js_ge (js_sub (Fin (of_int (max a b) / 2)) (Fin (of_int (min a b) / 2))) (Fin (1 / 2))"
    by (auto simp: js_ge_def js_le_def js_sub_def)
  show ?thesis using False assms ge
    by (simp add: handleGlobalMouseUp_def Let_def mn mx del: Math_min.simps Math_max.simps)
qed

lemma parse_HHmm_shape:
  assumes "parse_HHmm t = Some m"
  obtains a b d e h1 h2 m1 m2 where "t = [a, b, CHR '':'', d, e]"
    "digit_val a = Some h1" "digit_val b = Some h2" "digit_val d = Some m1" "digit_val e = Some m2"
    "10 * h1 + h2 \<le> 23" "10 * m1 + m2 \<le> 59" "m = 60 * (10 * h1 + h2) + (10 * m1 + m2)"
  using assms
  by (cases t rule: parse_HHmm.cases) (auto split: option.splits if_splits)

lemma floor_rat_divide_numeral [simp]:
  "\<lfloor>(numeral a :: rat) / numeral b\<rfloor> = numeral a div numeral b"
  by (metis floor_divide_of_int_eq of_int_numeral)

lemma floor_rat_minus_divide_numeral [simp]:
  "\<lfloor>- ((numeral a :: rat) / numeral b)\<rfloor> = - numeral a div numeral b"
  by (metis divide_minus_left floor_divide_of_int_eq of_int_neg_numeral of_int_numeral)

lemmas eval_grid =
  getHourFromY_def START_HOUR_def END_HOUR_def TOTAL_HOURS_def SNAP_MINUTES_def
  VERTICAL_PADDING_def js_sub_def js_le_def js_ge_def regular_def

text \<open>
  C7, as stated, fails: with a container height of 24 the usable height is zero and the
  pointer at y = 12 maps to NaN, which is not in [8, 23]; with a container height below
  24 the mapping decreases (height 0: y = 0 gives 15.5, y = 12 gives 8).
\<close>

theorem getHourFromY_counterexample:
  "\<not> (js_le (Fin 8) (getHourFromY (Fin 12) (Fin 24)) \<and> js_le (getHourFromY (Fin 12) (Fin 24)) (Fin 23))
   \<and> (0::rat) \<le> 12 \<and> \<not> js_le (getHourFromY (Fin 0) (Fin 0)) (getHourFromY (Fin 12) (Fin 0))"
  by (simp add: eval_grid)

text \<open>
  C7, amended. For every container height above 24 (a positive usable height)
  \<open>getHourFromY\<close> is monotonic non-decreasing in y; at every regular pointer position
  (every height other than 24, and height 24 with y other than 12) its result lies in
  [8, 23].
\<close>

theorem getHourFromY_monotone_bounded:
  "(24 < h \<and> y1 \<le> y2 \<longrightarrow> js_le (getHourFromY (Fin y1) (Fin h)) (getHourFromY (Fin y2) (Fin h)))
   \<and> (regular (y, h') \<longrightarrow>
        js_le (Fin 8) (getHourFromY (Fin y) (Fin h')) \<and> js_le (getHourFromY (Fin y) (Fin h')) (Fin 23))"
proof (intro conjI impI)
  assume "24 < h \<and> y1 \<le> y2"
  then obtain a b where "getHourFromY (Fin y1) (Fin h) = Fin a" "getHourFromY (Fin y2) (Fin h) = Fin b" "a \<le> b"
    using getHourFromY_mono [of h y1 y2] by blast
  then show "js_le (getHourFromY (Fin y1) (Fin h)) (getHourFromY (Fin y2) (Fin h))"
    by (auto simp: js_le_def)
next
  assume "regular (y, h')"
  then obtain k :: int where k: "getHourFromY (Fin y) (Fin h') = Fin (of_int k / 2)" "16 \<le> k" "k \<le> 46"
    using getHourFromY_regular by blast
  have "(8::rat) \<le> of_int k / 2" "(of_int k :: rat) / 2 \<le> 23" using k(2,3) by simp_all
  then show "js_le (Fin 8) (getHourFromY (Fin y) (Fin h'))" "js_le (getHourFromY (Fin y) (Fin h')) (Fin 23)"
    unfolding k(1) by (auto simp: js_le_def)
qed


theorem getHourFromY_monotone_bounded_witness:
  "(24::rat) < 624 \<and> (72::rat) \<le> 112 \<and> regular (112, 624)
   \<and> js_le (getHourFromY (Fin 72) (Fin 624)) (getHourFromY (Fin 112) (Fin 624))
   \<and> js_le (Fin 8) (getHourFromY (Fin 112) (Fin 624)) \<and> js_le (getHourFromY (Fin 112) (Fin 624)) (Fin 23)"
  using getHourFromY_monotone_bounded [of 624 72 112 112 624] by (simp add: regular_def)

text \<open>
  A create-drag whose press and moves are all at regular positions records two half-hour
  multiples, and the pointer release emits exactly one create request.
\<close>

lemma selecting_session_regular:
  "(regular (y, h) \<longrightarrow> (\<exists>k::int. getHourFromY (Fin y) (Fin h) = Fin (of_int k / 2)))
   \<and> (regular p0 \<and> list_all regular ms \<and> day \<noteq> [] \<longrightarrow>
        (\<exists>a b::int.
           dragStartHour (selectingSession p0 day ms) = Some (Fin (of_int a / 2))
         \<and> dragCurrentHour (selectingSession p0 day ms) = Some (Fin (of_int b / 2))
         \<and> (a = b \<or> (1::rat) / 2 \<le> \<bar>of_int a / 2 - of_int b / 2\<bar>)
         \<and> fst (handleGlobalMouseUp shifts (selectingSession p0 day ms)) =
             (if a = b then [OnAddShift day None None]
              else [OnAddShift day (Some (formatTimeFromHour (Fin (of_int (min a b) / 2))))
                      (Some (formatTimeFromHour (Fin (of_int (max a b) / 2))))])))"
proof (intro conjI impI)
  assume "regular (y, h)"
  then show "\<exists>k::int. getHourFromY (Fin y) (Fin h) = Fin (of_int k / 2)"
    using getHourFromY_regular by blast
next
  assume asm: "regular p0 \<and> list_all regular ms \<and> day \<noteq> []"
  let ?ini = "handleMouseDownOnGrid False False (Some (Fin (snd p0))) (Fin (fst p0)) day initialState"
  let ?st = "selectingSession p0 day ms"
  from asm have "regular (fst p0, snd p0)" by simp
  then obtain a :: int where a: "getHourFromY (Fin (fst p0)) (Fin (snd p0)) = Fin (of_int a / 2)"
    "16 \<le> a" "a \<le> 46" using getHourFromY_regular by blast
  have st0: "isSelecting ?ini" "dragDay ?ini = Some day" "dragStartHour ?ini = Some (Fin (of_int a / 2))"
    "dragCurrentHour ?ini = Some (Fin (of_int a / 2))" "tempShift ?ini = None"
    by (simp_all add: handleMouseDownOnGrid_def initialState_def a Let_def)
  have cur0: "\<exists>k::int. dragCurrentHour ?ini = Some (Fin (of_int k / 2)) \<and> 16 \<le> k \<and> k \<le> 46"
    using st0(4) a by blast
  have inv: "isSelecting ?st \<and> dragDay ?st = Some day \<and> dragStartHour ?st = Some (Fin (of_int a / 2))
     \<and> (\<exists>k::int. dragCurrentHour ?st = Some (Fin (of_int k / 2)) \<and> 16 \<le> k \<and> k \<le> 46)
     \<and> tempShift ?st = None"
    unfolding selectingSession_def
    using selecting_moves [OF st0(1) st0(2) _ st0(3) cur0 st0(5)] asm by blast
  then obtain b :: int where b: "dragCurrentHour ?st = Some (Fin (of_int b / 2))" by blast
  have up: "fst (handleGlobalMouseUp shifts ?st) =
     (if a = b then [OnAddShift day None None]
      else [OnAddShift day (Some (formatTimeFromHour (Fin (of_int (min a b) / 2))))
              (Some (formatTimeFromHour (Fin (of_int (max a b) / 2))))])"
    using inv b asm by (intro mouseUp_selecting) auto
  have ext: "a = b \<or> (1::rat) / 2 \<le> \<bar>of_int a / 2 - of_int b / 2\<bar>"
  proof (cases "a = b")
    case False
    then have "1 \<le> \<bar>a - b\<bar>" by simp
    then have "(1::rat) \<le> of_int \<bar>a - b\<bar>" by linarith
    then have "(1::rat) \<le> \<bar>of_int a - of_int b\<bar>" by simp
    moreover have "\<bar>(of_int a :: rat) / 2 - of_int b / 2\<bar> = \<bar>of_int a - of_int b\<bar> / 2"
      by (simp add: abs_if field_simps)
    ultimately show ?thesis by simp
  qed simp
  show "\<exists>a b::int.
           dragStartHour ?st = Some (Fin (of_int a / 2))
         \<and> dragCurrentHour ?st = Some (Fin (of_int b / 2))
         \<and> (a = b \<or> (1::rat) / 2 \<le> \<bar>of_int a / 2 - of_int b / 2\<bar>)
         \<and> fst (handleGlobalMouseUp shifts ?st) =
             (if a = b then [OnAddShift day None None]
              else [OnAddShift day (Some (formatTimeFromHour (Fin (of_int (min a b) / 2))))
                      (Some (formatTimeFromHour (Fin (of_int (max a b) / 2))))])"
    using inv b up ext by blast
qed

lemma positive_height_regular: "24 < snd p \<Longrightarrow> regular p"
  by (simp add: regular_def)

text \<open>
  C9. The grid is at least 600 pixels high (\<open>min-h-[600px]\<close>), so its usable height,
  the height less 24, is positive. Over such a grid every value returned by
  \<open>getHourFromY\<close> is an integer multiple of 0.5. In a create-drag over such a grid both
  recorded hours are half-hour multiples, the extent is exactly 0 or at least 0.5, and the
  pointer release emits exactly one create request: without times when the extent is 0,
  with the formatted start and end when it is at least 0.5. No create-drag ends without a
  request.
\<close>

theorem selecting_session_emits:
  "(24 < h \<longrightarrow> (\<exists>k::int. getHourFromY (Fin y) (Fin h) = Fin (of_int k / 2)))
   \<and> (24 < snd p0 \<and> list_all (\<lambda>p. 24 < snd p) ms \<and> day \<noteq> [] \<longrightarrow>
        (\<exists>a b::int.
           dragStartHour (selectingSession p0 day ms) = Some (Fin (of_int a / 2))
         \<and> dragCurrentHour (selectingSession p0 day ms) = Some (Fin (of_int b / 2))
         \<and> (a = b \<or> (1::rat) / 2 \<le> \<bar>of_int a / 2 - of_int b / 2\<bar>)
         \<and> fst (handleGlobalMouseUp shifts (selectingSession p0 day ms)) =
             (if a = b then [OnAddShift day None None]
              else [OnAddShift day (Some (formatTimeFromHour (Fin (of_int (min a b) / 2))))
                      (Some (formatTimeFromHour (Fin (of_int (max a b) / 2))))])
         \<and> fst (handleGlobalMouseUp shifts (selectingSession p0 day ms)) \<noteq> []))"
proof (intro conjI impI)
  assume "24 < h"
  then have "regular (y, h)" by (simp add: regular_def)
  then show "\<exists>k::int. getHourFromY (Fin y) (Fin h) = Fin (of_int k / 2)"
    using getHourFromY_regular by blast
next
  assume asm: "24 < snd p0 \<and> list_all (\<lambda>p. 24 < snd p) ms \<and> day \<noteq> []"
  then have "regular p0" by (simp add: positive_height_regular)
  moreover have "list_all regular ms"
    using asm by (simp add: list_all_iff positive_height_regular)
  ultimately have "regular p0 \<and> list_all regular ms \<and> day \<noteq> []" using asm by simp
  then obtain a b :: int where ab:
    "dragStartHour (selectingSession p0 day ms) = Some (Fin (of_int a / 2))"
    "dragCurrentHour (selectingSession p0 day ms) = Some (Fin (of_int b / 2))"
    "a = b \<or> (1::rat) / 2 \<le> \<bar>of_int a / 2 - of_int b / 2\<bar>"
    "fst (handleGlobalMouseUp shifts (selectingSession p0 day ms)) =
       (if a = b then [OnAddShift day None None]
        else [OnAddShift day (Some (formatTimeFromHour (Fin (of_int (min a b) / 2))))
                (Some (formatTimeFromHour (Fin (of_int (max a b) / 2))))])"
    using selecting_session_regular [of y h p0 ms day shifts] by blast
  have "fst (handleGlobalMouseUp shifts (selectingSession p0 day ms)) \<noteq> []"
    unfolding ab(4) by simp
  then show "\<exists>a b::int.
           dragStartHour (selectingSession p0 day ms) = Some (Fin (of_int a / 2))
         \<and> dragCurrentHour (selectingSession p0 day ms) = Some (Fin (of_int b / 2))
         \<and> (a = b \<or> (1::rat) / 2 \<le> \<bar>of_int a / 2 - of_int b / 2\<bar>)
         \<and> fst (handleGlobalMouseUp shifts (selectingSession p0 day ms)) =
             (if a = b then [OnAddShift day None None]
              else [OnAddShift day (Some (formatTimeFromHour (Fin (of_int (min a b) / 2))))
                      (Some (formatTimeFromHour (Fin (of_int (max a b) / 2))))])
         \<and> fst (handleGlobalMouseUp shifts (selectingSession p0 day ms)) \<noteq> []"
    using ab by blast
qed

theorem selecting_session_emits_witness:
  "(24::rat) < 624 \<and> (\<exists>k::int. getHourFromY (Fin 112) (Fin 624) = Fin (of_int k / 2))
   \<and> (24::rat) < snd (52::rat, 624::rat) \<and> ''2024-01-10'' \<noteq> []
   \<and> (\<exists>a b::int.
         dragStartHour (selectingSession (52, 624) ''2024-01-10'' [(112, 624)]) = Some (Fin (of_int a / 2))
       \<and> dragCurrentHour (selectingSession (52, 624) ''2024-01-10'' [(112, 624)]) = Some (Fin (of_int b / 2))
       \<and> (a = b \<or> (1::rat) / 2 \<le> \<bar>of_int a / 2 - of_int b / 2\<bar>)
       \<and> fst (handleGlobalMouseUp [] (selectingSession (52, 624) ''2024-01-10'' [(112, 624)])) =
           (if a = b then [OnAddShift ''2024-01-10'' None None]
            else [OnAddShift ''2024-01-10'' (Some (formatTimeFromHour (Fin (of_int (min a b) / 2))))
                    (Some (formatTimeFromHour (Fin (of_int (max a b) / 2))))])
       \<and> fst (handleGlobalMouseUp [] (selectingSession (52, 624) ''2024-01-10'' [(112, 624)])) \<noteq> [])"
  using selecting_session_emits [of 624 112 "(52, 624)" "[(112, 624)]" "''2024-01-10''" "[]"]
  by simp


section \<open>Commit paths and the conflict check\<close>

text \<open>The modal saves, and the single-shift paste writes, only what passes the check.\<close>

lemma handleSubmit_checks_overlap:
  "snd (handleSubmit shifts editingShift now st) = Some s \<Longrightarrow> \<not> checkOverlap shifts (toPartial s)"
  by (auto simp: handleSubmit_def Let_def split: if_splits)

lemma handlePasteShift_checks_overlap:
  "AddDoc d \<in> set (snd (handlePasteShift currentUser copiedShift shifts date')) \<Longrightarrow>
     \<not> checkOverlap shifts (d\<lparr>id_opt := Some ''temp-check''\<rparr>)"
  by (auto simp: handlePasteShift_def Let_def split: if_splits option.splits)

text \<open>
  C2 fails on the drag path. With the shifts 09:00--10:00 (id a) and 10:00--11:00 (id b)
  of one employee and day, moving the first by one hour gives a candidate 10:00--11:00
  on which \<open>checkOverlap\<close> reports a conflict; the pointer release passes it to
  \<open>saveShift\<close>, which issues the update without any check.
\<close>

theorem drag_commit_skips_conflict_check:
  "tempShift (interactingSession (72, 624) (shift_E ''a'' ''09:00'' ''10:00'') Move [(112, 624)]) =
     Some ((shift_E ''a'' ''09:00'' ''10:00'')\<lparr>startTime := ''10:00'', endTime := ''11:00'', hours := Fin 1\<rparr>)
   \<and> checkOverlap [shift_E ''a'' ''09:00'' ''10:00'', shift_E ''b'' ''10:00'' ''11:00'']
        (toPartial ((shift_E ''a'' ''09:00'' ''10:00'')
                      \<lparr>startTime := ''10:00'', endTime := ''11:00'', hours := Fin 1\<rparr>))
   \<and> commitDrag (Some Admin) [shift_E ''a'' ''09:00'' ''10:00'', shift_E ''b'' ''10:00'' ''11:00'']
        (interactingSession (72, 624) (shift_E ''a'' ''09:00'' ''10:00'') Move [(112, 624)]) =
       [SetDoc ''a'' ((shift_E ''a'' ''09:00'' ''10:00'')
                        \<lparr>startTime := ''10:00'', endTime := ''11:00'', hours := Fin 1\<rparr>)]"
proof -
  let ?A = "shift_E ''a'' ''09:00'' ''10:00''"
  let ?B = "shift_E ''b'' ''10:00'' ''11:00''"
  let ?st = "interactingSession (72, 624) ?A Move [(112, 624)]"
  let ?c = "?A\<lparr>startTime := ''10:00'', endTime := ''11:00'', hours := Fin 1\<rparr>"
  have st: "?st = initialState\<lparr>activeShiftId := Some ''a'', interactionType := Some Move,
      interactionOffset := Fin (1 / 2), interactionInitialHours := Some (Fin 9, Fin 10),
      tempShift := Some ?c\<rparr>"
    by code_simp
  have 1: "tempShift ?st = Some ?c" unfolding st by simp
  have 2: "checkOverlap [?A, ?B] (toPartial ?c)" by (simp add: eval_checkOverlap)
  have 3: "commitDrag (Some Admin) [?A, ?B] ?st = [SetDoc ''a'' ?c]"
    unfolding st
    by (simp add: commitDrag_def saveShift_def handleGlobalMouseUp_def initialState_def
        falsy_def shift_E_def)
  show ?thesis using 1 2 3 by simp
qed

text \<open>The modal rejects equal start and end times.\<close>

lemma handleSubmit_rejects_equal_times:
  assumes "parse_HHmm (form_startTime st) = Some a" "form_endTime st = form_startTime st"
    and "form_employeeId st \<noteq> []"
  shows "handleSubmit shifts editingShift now st =
     (st\<lparr>form_error := Some ''End time must be after start time.''\<rparr>, None)"
proof -
  have "calculateShiftHours (form_startTime st) (form_endTime st) = Fin 0"
    using calculateShiftHours_Some [OF assms(1) assms(1)] assms(2) by (simp add: round2_0)
  then show ?thesis using assms(3) by (simp add: handleSubmit_def js_le_def Let_def)
qed

text \<open>
  C6 holds for equal times and fails for an end before the start: the duration helper
  adds 24 hours, so \<open>hours <= 0\<close> is false and the modal saves a 17:00--09:00 shift of
  16 hours.
\<close>

theorem handleSubmit_accepts_end_before_start:
  "handleSubmit [] None ''1704900000000''
     \<lparr>form_employeeId = ''E'', form_date = ''2024-01-10'', form_startTime = ''17:00'',
      form_endTime = ''09:00'', form_error = None\<rparr> =
   (\<lparr>form_employeeId = ''E'', form_date = ''2024-01-10'', form_startTime = ''17:00'',
     form_endTime = ''09:00'', form_error = None\<rparr>,
    Some \<lparr>id' = ''1704900000000'', employeeId = ''E'', date = ''2024-01-10'',
          startTime = ''17:00'', endTime = ''09:00'', hours = Fin 16\<rparr>)"
proof -
  have a: "parse_HHmm ''17:00'' = Some 1020" by (simp add: digit_val_def)
  have b: "parse_HHmm ''09:00'' = Some 540" by (simp add: digit_val_def)
  have h: "calculateShiftHours ''17:00'' ''09:00'' = Fin 16"
    using calculateShiftHours_Some [OF a b] by (simp add: round2_def round_def)
  show ?thesis
    by (simp add: handleSubmit_def h js_le_def checkOverlap_def toPartial_def falsy_def Let_def)
qed

section \<open>Properties of the calendar and the week paste\<close>

lemma div_step:
  fixes y k :: int
  assumes "0 < k"
  shows "y div k = (y - 1) div k + (if y mod k = 0 then 1 else 0)"
proof (cases "y mod k = 0")
  case True
  have "y = k * (y div k)" using True mult_div_mod_eq [of k y] by simp
  then have "y - 1 = k * (y div k - 1) + (k - 1)" by (simp add: algebra_simps)
  then have "(y - 1) div k = y div k - 1"
    using assms by (intro int_div_pos_eq [where r = "k - 1"]) simp_all
  then show ?thesis using True by simp
next
  case False
  have r: "0 < y mod k" "y mod k < k"
    using assms False pos_mod_sign [of k y] pos_mod_bound [of k y] by linarith+
  have "y - 1 = k * (y div k) + (y mod k - 1)" by simp
  then have "(y - 1) div k = y div k"
    using r by (intro int_div_pos_eq [where r = "y mod k - 1"]) simp_all
  then show ?thesis using False by simp
qed

lemma mod_400:
  fixes y :: int
  shows "y mod 400 = 0 \<Longrightarrow> y mod 100 = 0" "y mod 100 = 0 \<Longrightarrow> y mod 4 = 0"
proof -
  have a: "(100::int) dvd 400" "(4::int) dvd 100" by simp_all
  show "y mod 400 = 0 \<Longrightarrow> y mod 100 = 0"
    using dvd_trans [OF a(1), of y] by (simp add: mod_eq_0_iff_dvd)
  show "y mod 100 = 0 \<Longrightarrow> y mod 4 = 0"
    using dvd_trans [OF a(2), of y] by (simp add: mod_eq_0_iff_dvd)
qed

lemma year_step: "days_before_year (y + 1) = days_before_year y + (if leap_year y then 366 else 365)"
proof -
  define a b c where "a = (y - 1) div 4" and "b = (y - 1) div 100" and "c = (y - 1) div 400"
  have 1: "y div 4 = a + (if y mod 4 = 0 then 1 else 0)" unfolding a_def by (rule div_step) simp
  have 2: "y div 100 = b + (if y mod 100 = 0 then 1 else 0)" unfolding b_def by (rule div_step) simp
  have 3: "y div 400 = c + (if y mod 400 = 0 then 1 else 0)" unfolding c_def by (rule div_step) simp
  have l: "days_before_year (y + 1) = 365 * y + y div 4 - y div 100 + y div 400"
    by (simp add: days_before_year_def)
  have r: "days_before_year y = 365 * (y - 1) + a - b + c"
    by (simp add: days_before_year_def a_def b_def c_def)
  show ?thesis
  proof (cases "y mod 4 = 0")
    case False
    then have "y mod 100 \<noteq> 0" "y mod 400 \<noteq> 0" using mod_400 [of y] by auto
    then show ?thesis using False unfolding l r 1 2 3 leap_year_def by simp
  next
    case 4: True
    show ?thesis
    proof (cases "y mod 100 = 0")
      case False
      then have "y mod 400 \<noteq> 0" using mod_400 [of y] by auto
      then show ?thesis using 4 False unfolding l r 1 2 3 leap_year_def by simp
    next
      case True
      then show ?thesis using 4 unfolding l r 1 2 3 leap_year_def by (cases "y mod 400 = 0") simp_all
    qed
  qed
qed

lemma dbm13: "days_before_month y 13 = (if leap_year y then 366 else 365)"
  by (simp add: eval_nat_numeral days_in_month_def)

lemma dbm12: "days_before_month y 12 = (if leap_year y then 335 else 334)"
  by (simp add: eval_nat_numeral days_in_month_def)

lemma dbm_Suc: "1 \<le> m \<Longrightarrow> days_before_month y (Suc m) = days_before_month y m + days_in_month y m"
  by simp

lemma next_day_ok:
  assumes "valid_date c"
  shows "valid_date (next_day c) \<and> day_number (next_day c) = day_number c + 1"
proof -
  obtain y m d where c: "c = (y, m, d)" by (cases c)
  have v: "1 \<le> m" "m \<le> 12" "1 \<le> d" "d \<le> days_in_month y m" using assms by (simp_all add: c)
  consider "d < days_in_month y m" | "d = days_in_month y m" "m < 12" | "d = days_in_month y m" "m = 12"
    using v by linarith
  then show ?thesis
  proof cases
    case 1
    then show ?thesis using v by (simp add: c)
  next
    case 2
    have "1 \<le> days_in_month y (m + 1)" by (simp add: days_in_month_def)
    then show ?thesis using 2 v dbm_Suc [of m y] by (simp add: c)
  next
    case 3
    then have d: "d = 31" by (simp add: days_in_month_def)
    show ?thesis using 3 d by (simp add: c year_step dbm12 days_in_month_def)
  qed
qed

lemma prev_day_ok:
  assumes "valid_date c"
  shows "valid_date (prev_day c) \<and> day_number (prev_day c) = day_number c - 1"
proof -
  obtain y m d where c: "c = (y, m, d)" by (cases c)
  have v: "1 \<le> m" "m \<le> 12" "1 \<le> d" "d \<le> days_in_month y m" using assms by (simp_all add: c)
  consider "1 < d" | "d = 1" "1 < m" | "d = 1" "m = 1"
    using v by linarith
  then show ?thesis
  proof cases
    case 1
    then have "1 \<le> d - 1" "d - 1 \<le> days_in_month y m" "int (d - 1) = int d - 1"
      using v by linarith+
    then show ?thesis using 1 v by (simp add: c)
  next
    case 2
    then obtain k where k: "m = Suc k" "1 \<le> k" by (cases m) auto
    have "1 \<le> days_in_month y k" by (simp add: days_in_month_def)
    then show ?thesis using 2 v k by (simp add: c)
  next
    case 3
    have "days_before_year y = days_before_year (y - 1) + (if leap_year (y - 1) then 366 else 365)"
      using year_step [of "y - 1"] by simp
    then show ?thesis using 3 by (simp add: c dbm12 days_in_month_def)
  qed
qed

lemma iterate_next:
  "valid_date c \<Longrightarrow> valid_date (iterate n next_day c) \<and> day_number (iterate n next_day c) = day_number c + int n"
  by (induction n arbitrary: c) (auto simp: next_day_ok)

lemma iterate_prev:
  "valid_date c \<Longrightarrow> valid_date (iterate n prev_day c) \<and> day_number (iterate n prev_day c) = day_number c - int n"
  by (induction n arbitrary: c) (auto simp: prev_day_ok)

lemma addDays_ok:
  assumes "valid_date c"
  shows "valid_date (addDays c n) \<and> day_number (addDays c n) = day_number c + n"
  using iterate_next [OF assms, of "nat n"] iterate_prev [OF assms, of "nat (- n)"]
  by (auto simp: addDays_def)


lemma dby_mono: "y1 \<le> y2 \<Longrightarrow> days_before_year y1 \<le> days_before_year y2"
proof (induction y2 rule: int_ge_induct)
  case base
  then show ?case by simp
next
  case (step i)
  have "days_before_year i \<le> days_before_year (i + 1)" unfolding year_step by simp
  then show ?case using step.IH by linarith
qed

lemma dbm_mono: "m1 \<le> m2 \<Longrightarrow> days_before_month y m1 \<le> days_before_month y m2"
proof (induction m2)
  case 0
  then show ?case by simp
next
  case (Suc m2)
  show ?case
  proof (cases "m1 = Suc m2")
    case False
    then have "m1 \<le> m2" using Suc.prems by simp
    then have "days_before_month y m1 \<le> days_before_month y m2" by (rule Suc.IH)
    moreover have "days_before_month y m2 \<le> days_before_month y (Suc m2)" by (cases m2) simp_all
    ultimately show ?thesis by simp
  qed simp
qed

lemma in_year:
  assumes "valid_date (y, m, d)"
  shows "days_before_year y \<le> day_number (y, m, d) \<and> day_number (y, m, d) < days_before_year (y + 1)"
proof -
  have v: "1 \<le> m" "m \<le> 12" "1 \<le> d" "d \<le> days_in_month y m" using assms by simp_all
  have "days_before_month y m + d \<le> days_before_month y (Suc m)" using v by simp
  also have "\<dots> \<le> days_before_month y 13" using v by (intro dbm_mono) simp
  finally have "days_before_month y m + d \<le> (if leap_year y then 366 else 365)" by (simp only: dbm13)
  then show ?thesis using v by (auto simp: year_step split: if_splits)
qed

lemma day_number_inj:
  assumes "valid_date a" "valid_date b" "day_number a = day_number b"
  shows "a = b"
proof -
  obtain ya ma da where a: "a = (ya, ma, da)" by (cases a)
  obtain yb mb db where b: "b = (yb, mb, db)" by (cases b)
  have va: "1 \<le> ma" "ma \<le> 12" "1 \<le> da" "da \<le> days_in_month ya ma" using assms(1) by (simp_all add: a)
  have vb: "1 \<le> mb" "mb \<le> 12" "1 \<le> db" "db \<le> days_in_month yb mb" using assms(2) by (simp_all add: b)
  have ia: "days_before_year ya \<le> day_number a" "day_number a < days_before_year (ya + 1)"
    using in_year assms(1) unfolding a by blast+
  have ib: "days_before_year yb \<le> day_number b" "day_number b < days_before_year (yb + 1)"
    using in_year assms(2) unfolding b by blast+
  have y: "ya = yb"
  proof (rule ccontr)
    assume "ya \<noteq> yb"
    then consider "ya + 1 \<le> yb" | "yb + 1 \<le> ya" by linarith
    then show False
    proof cases
      case 1
      then have "days_before_year (ya + 1) \<le> days_before_year yb" by (rule dby_mono)
      then show False using ia ib assms(3) by linarith
    next
      case 2
      then have "days_before_year (yb + 1) \<le> days_before_year ya" by (rule dby_mono)
      then show False using ia ib assms(3) by linarith
    qed
  qed
  have eq: "days_before_month ya ma + da = days_before_month ya mb + db"
    using assms(3) by (simp add: a b y)
  have step: "days_before_month ya m + d \<le> days_before_month ya m'"
    if "1 \<le> m" "d \<le> days_in_month ya m" "m < m'" for m m' d
  proof -
    have "days_before_month ya m + d \<le> days_before_month ya (Suc m)" using that by simp
    also have "\<dots> \<le> days_before_month ya m'" using that by (intro dbm_mono) simp
    finally show ?thesis .
  qed
  have m: "ma = mb"
  proof (rule ccontr)
    assume "ma \<noteq> mb"
    then consider "ma < mb" | "mb < ma" by linarith
    then show False
    proof cases
      case 1
      then show False using step [OF va(1) va(4) 1] eq vb(3) by linarith
    next
      case 2
      then show False using step [of mb db ma] vb y eq va(3) by simp
    qed
  qed
  show ?thesis using y m eq by (simp add: a b)
qed

lemma startOfWeek_ok:
  assumes "valid_date c"
  shows "valid_date (startOfWeek c)"
    and "day_number (startOfWeek c) = day_number c - int (getDay c)"
    and "getDay (startOfWeek c) = 0"
    and "getDay c \<le> 6"
proof -
  show 1: "valid_date (startOfWeek c)" and 2: "day_number (startOfWeek c) = day_number c - int (getDay c)"
    unfolding startOfWeek_def using addDays_ok [OF assms] by simp_all
  show "getDay (startOfWeek c) = 0"
    unfolding getDay_def [of "startOfWeek c"] 2 unfolding getDay_def by (simp add: mod_diff_eq) presburger
  have "(day_number c + 1) mod 7 < 7" by simp
  then show "getDay c \<le> 6" unfolding getDay_def by linarith
qed

lemma isSameWeek_iff:
  assumes "valid_date c" "valid_date w"
  shows "startOfWeek c = startOfWeek w \<longleftrightarrow>
     day_number (startOfWeek w) \<le> day_number c \<and> day_number c \<le> day_number (startOfWeek w) + 6"
proof
  assume "startOfWeek c = startOfWeek w"
  then have "day_number (startOfWeek w) = day_number c - int (getDay c)"
    using startOfWeek_ok(2) [OF assms(1)] by simp
  then show "day_number (startOfWeek w) \<le> day_number c \<and> day_number c \<le> day_number (startOfWeek w) + 6"
    using startOfWeek_ok(4) [OF assms(1)] by simp
next
  assume r: "day_number (startOfWeek w) \<le> day_number c \<and> day_number c \<le> day_number (startOfWeek w) + 6"
  have "getDay (startOfWeek w) = 0" using startOfWeek_ok(3) [OF assms(2)] .
  then have s: "(day_number (startOfWeek w) + 1) mod 7 = 0"
    unfolding getDay_def by simp
  have "int (getDay c) = day_number c - day_number (startOfWeek w)"
    unfolding getDay_def [of c] using r s by simp presburger
  then have "day_number (startOfWeek c) = day_number (startOfWeek w)"
    using startOfWeek_ok(2) [OF assms(1)] by simp
  then show "startOfWeek c = startOfWeek w"
    using day_number_inj startOfWeek_ok(1) assms by blast
qed

lemma digit_table: "list_all (\<lambda>n. digit_val (digit_char n) = Some n) [0..<10]"
  by code_simp

lemma digit_roundtrip: "n < 10 \<Longrightarrow> digit_val (digit_char n) = Some n"
  using digit_table by (simp add: list_all_iff)

lemma digit_char_0: "digit_char 0 = CHR ''0''"
  by (simp add: digit_char_def)

lemma replicate_small:
  "replicate 2 x = [x, x]" "replicate 3 x = [x, x, x]"
  by (simp_all add: numeral_2_eq_2 numeral_3_eq_3)

lemma nat_toString_2:
  assumes "n < 100"
  shows "padStart2 (nat_toString n) = [digit_char (n div 10), digit_char (n mod 10)]"
proof (cases "n < 10")
  case True
  then show ?thesis by (simp add: nat_toString.simps [of n] padStart2_def digit_char_0)
next
  case False
  then have "n div 10 < 10" using assms by simp
  then show ?thesis using False
    by (simp add: nat_toString.simps [of n] nat_toString.simps [of "n div 10"] padStart2_def)
qed

lemma nat_toString_4:
  assumes "n < 10000"
  shows "padStart4 (nat_toString n) =
     [digit_char (n div 10 div 10 div 10), digit_char (n div 10 div 10 mod 10),
      digit_char (n div 10 mod 10), digit_char (n mod 10)]"
proof -
  let ?a = "n div 10" and ?b = "n div 10 div 10" and ?c = "n div 10 div 10 div 10"
  have c: "?c < 10" using assms by (simp add: div_mult2_eq)
  consider "n < 10" | "\<not> n < 10" "?a < 10" | "\<not> n < 10" "\<not> ?a < 10" "?b < 10"
    | "\<not> n < 10" "\<not> ?a < 10" "\<not> ?b < 10" by blast
  then show ?thesis
  proof cases
    case 1
    then show ?thesis
      by (simp add: nat_toString.simps [of n] padStart4_def digit_char_0 replicate_small)
  next
    case 2
    then show ?thesis
      by (simp add: nat_toString.simps [of n] nat_toString.simps [of ?a] padStart4_def
          digit_char_0 replicate_small)
  next
    case 3
    then show ?thesis
      by (simp add: nat_toString.simps [of n] nat_toString.simps [of ?a]
          nat_toString.simps [of ?b] padStart4_def digit_char_0)
  next
    case 4
    then show ?thesis using c
      by (simp add: nat_toString.simps [of n] nat_toString.simps [of ?a]
          nat_toString.simps [of ?b] nat_toString.simps [of ?c] padStart4_def)
  qed
qed

lemma digits4:
  assumes "n < 10000"
  shows "digits_value 0 [digit_char (n div 10 div 10 div 10), digit_char (n div 10 div 10 mod 10),
      digit_char (n div 10 mod 10), digit_char (n mod 10)] = Some n"
proof -
  have c: "n div 10 div 10 div 10 < 10" using assms by (simp add: div_mult2_eq)
  have "10 * (10 * (10 * (n div 10 div 10 div 10) + n div 10 div 10 mod 10) + n div 10 mod 10)
      + n mod 10 = n"
    by simp
  then show ?thesis using c by (simp add: digit_roundtrip)
qed

lemma digits2:
  assumes "m < 100"
  shows "digits_value 0 [digit_char (m div 10), digit_char (m mod 10)] = Some m"
  using assms by (simp add: digit_roundtrip)

lemma parse_format:
  assumes "valid_date c" "1 \<le> fst c" "fst c \<le> 9999"
  shows "parseISO (format_date c) = Some c"
proof -
  obtain y m d where c: "c = (y, m, d)" by (cases c)
  define n where "n = nat y"
  have n: "n < 10000" "int n = y" "0 < y" using assms(2,3) by (simp_all add: c n_def)
  have v: "1 \<le> m" "m \<le> 12" "1 \<le> d" "d \<le> days_in_month y m" using assms(1) by (simp_all add: c)
  have "days_in_month y m \<le> 31" by (simp add: days_in_month_def)
  then have d: "d < 100" and m: "m < 100" using v by simp_all
  have f: "format_date c =
     [digit_char (n div 10 div 10 div 10), digit_char (n div 10 div 10 mod 10),
      digit_char (n div 10 mod 10), digit_char (n mod 10), CHR ''-'',
      digit_char (m div 10), digit_char (m mod 10), CHR ''-'',
      digit_char (d div 10), digit_char (d mod 10)]"
    using n(3) by (simp add: c nat_toString_4 [OF n(1)] nat_toString_2 [OF m] nat_toString_2 [OF d]
        n_def [symmetric])
  show ?thesis unfolding f parseISO_def
    using v n(2)
    by (simp add: digits4 [OF n(1)] digits2 [OF m] digits2 [OF d] c del: digits_value.simps)
qed

lemma those_pasted:
  assumes "\<forall>s \<in> set src. \<exists>c. parseISO (date s) = Some c"
  shows "\<exists>docs. those (map (\<lambda>s. map_option (g s) (parseISO (date s))) src) = Some docs
     \<and> list_all2 (\<lambda>s doc. \<exists>c. parseISO (date s) = Some c \<and> doc = g s c) src docs"
  using assms
proof (induction src)
  case Nil
  then show ?case by simp
next
  case (Cons s src)
  then obtain c where c: "parseISO (date s) = Some c" by auto
  from Cons obtain docs where d:
    "those (map (\<lambda>s. map_option (g s) (parseISO (date s))) src) = Some docs"
    "list_all2 (\<lambda>s doc. \<exists>c. parseISO (date s) = Some c \<and> doc = g s c) src docs" by auto
  have 1: "those (map (\<lambda>s. map_option (g s) (parseISO (date s))) (s # src)) = Some (g s c # docs)"
    using c d(1) by simp
  have 2: "list_all2 (\<lambda>s doc. \<exists>c. parseISO (date s) = Some c \<and> doc = g s c) (s # src) (g s c # docs)"
    using c d(2) by (cases c) auto
  show ?case using 1 2 by blast
qed

lemma list_all2_single: "list_all2 P [x] ys \<Longrightarrow> \<exists>y. ys = [y] \<and> P x y"
  by (cases ys) (simp_all add: list_all2_Cons1)

lemma parseISO_valid: "parseISO s = Some c \<Longrightarrow> valid_date c"
  by (auto simp: parseISO_def split: if_splits option.splits)

text \<open>
  C3. Paste week writes one batch holding, for each shift whose date lies in the source
  week and in the order of the shift list, exactly one new shift: its date is the
  formatted calendar day whose day number is the source date's plus the difference of
  the two week starts, its employee, start, end and hours are the source's, and it has
  no id. The
  source week starts on a Sunday and holds the seven days from it. With the source week
  starting 2024-01-07 and the target week starting 2024-01-14, a shift dated 2024-01-09
  yields one dated 2024-01-16.
\<close>

theorem handlePasteWeek_batch:
  assumes "valid_date copied" "valid_date target"
  shows "(filter (\<lambda>s. isSameWeek (parseISO (date s)) (Some (startOfWeek copied))) shifts \<noteq> [] \<longrightarrow>
      (\<exists>docs.
         handlePasteWeek (Some copied) (Some Admin) True shifts target = (None, [BatchCommit docs])
       \<and> list_all2
           (\<lambda>s doc. \<exists>c c'.
              parseISO (date s) = Some c \<and> valid_date c'
            \<and> day_number c' = day_number c + (day_number (startOfWeek target) - day_number (startOfWeek copied))
            \<and> (1 \<le> fst c' \<and> fst c' \<le> 9999 \<longrightarrow> parseISO (format_date c') = Some c')
            \<and> doc = \<lparr>id_opt = None, employeeId_opt = Some (employeeId s),
                     date_opt = Some (format_date c'), startTime_opt = Some (startTime s),
                     endTime_opt = Some (endTime s), hours_opt = Some (hours s)\<rparr>)
           (filter (\<lambda>s. isSameWeek (parseISO (date s)) (Some (startOfWeek copied))) shifts) docs))
   \<and> (filter (\<lambda>s. isSameWeek (parseISO (date s)) (Some (startOfWeek copied))) shifts = [] \<longrightarrow>
        snd (handlePasteWeek (Some copied) (Some Admin) True shifts target) = [])
   \<and> getDay (startOfWeek copied) = 0
   \<and> (isSameWeek (parseISO (date s)) (Some (startOfWeek copied)) \<longleftrightarrow>
       (\<exists>c. parseISO (date s) = Some c
          \<and> day_number (startOfWeek copied) \<le> day_number c
          \<and> day_number c \<le> day_number (startOfWeek copied) + 6))
   \<and> handlePasteWeek (Some (2024, 1, 7)) (Some Admin) True
        [(shift_E ''a'' ''09:00'' ''12:00'')\<lparr>date := ''2024-01-09''\<rparr>] (2024, 1, 14) =
      (None, [BatchCommit
                [\<lparr>id_opt = None, employeeId_opt = Some ''E'', date_opt = Some ''2024-01-16'',
                  startTime_opt = Some ''09:00'', endTime_opt = Some ''12:00'',
                  hours_opt = Some (Fin 3)\<rparr>]])"
proof (intro conjI impI)
  let ?src = "filter (\<lambda>s. isSameWeek (parseISO (date s)) (Some (startOfWeek copied))) shifts"
  let ?off = "day_number (startOfWeek target) - day_number (startOfWeek copied)"
  let ?g = "\<lambda>s c. \<lparr>id_opt = None, employeeId_opt = Some (employeeId s),
                   date_opt = Some (format_date (addDays c ?off)), startTime_opt = Some (startTime s),
                   endTime_opt = Some (endTime s), hours_opt = Some (hours s)\<rparr>"
  assume ne: "?src \<noteq> []"
  have "\<forall>s \<in> set ?src. \<exists>c. parseISO (date s) = Some c"
    by (auto simp: isSameWeek_def split: option.splits)
  then obtain docs where docs: "those (map (\<lambda>s. map_option (?g s) (parseISO (date s))) ?src) = Some docs"
    and all: "list_all2 (\<lambda>s doc. \<exists>c. parseISO (date s) = Some c \<and> doc = ?g s c) ?src docs"
    using those_pasted [of ?src ?g] by blast
  have run: "handlePasteWeek (Some copied) (Some Admin) True shifts target = (None, [BatchCommit docs])"
    using ne docs by (simp add: handlePasteWeek_def differenceInDays_def withoutId_def Let_def)
  have "list_all2
         (\<lambda>s doc. \<exists>c c'.
            parseISO (date s) = Some c \<and> valid_date c'
          \<and> day_number c' = day_number c + ?off
          \<and> (1 \<le> fst c' \<and> fst c' \<le> 9999 \<longrightarrow> parseISO (format_date c') = Some c')
          \<and> doc = \<lparr>id_opt = None, employeeId_opt = Some (employeeId s),
                     date_opt = Some (format_date c'), startTime_opt = Some (startTime s),
                     endTime_opt = Some (endTime s), hours_opt = Some (hours s)\<rparr>)
         ?src docs"
  proof (rule list_all2_mono [OF all])
    fix s doc
    assume "\<exists>c. parseISO (date s) = Some c \<and> doc = ?g s c"
    then obtain c where c: "parseISO (date s) = Some c" "doc = ?g s c" by blast
    have v: "valid_date c" using c(1) by (rule parseISO_valid)
    have a: "valid_date (addDays c ?off)" "day_number (addDays c ?off) = day_number c + ?off"
      using addDays_ok [OF v] by simp_all
    have "1 \<le> fst (addDays c ?off) \<and> fst (addDays c ?off) \<le> 9999 \<longrightarrow>
        parseISO (format_date (addDays c ?off)) = Some (addDays c ?off)"
      using parse_format [OF a(1)] by simp
    then show "\<exists>c c'.
            parseISO (date s) = Some c \<and> valid_date c'
          \<and> day_number c' = day_number c + ?off
          \<and> (1 \<le> fst c' \<and> fst c' \<le> 9999 \<longrightarrow> parseISO (format_date c') = Some c')
          \<and> doc = \<lparr>id_opt = None, employeeId_opt = Some (employeeId s),
                     date_opt = Some (format_date c'), startTime_opt = Some (startTime s),
                     endTime_opt = Some (endTime s), hours_opt = Some (hours s)\<rparr>"
      using c a by blast
  qed
  then show "\<exists>docs.
       handlePasteWeek (Some copied) (Some Admin) True shifts target = (None, [BatchCommit docs])
     \<and> list_all2
         (\<lambda>s doc. \<exists>c c'.
            parseISO (date s) = Some c \<and> valid_date c'
          \<and> day_number c' = day_number c + ?off
          \<and> (1 \<le> fst c' \<and> fst c' \<le> 9999 \<longrightarrow> parseISO (format_date c') = Some c')
          \<and> doc = \<lparr>id_opt = None, employeeId_opt = Some (employeeId s),
                     date_opt = Some (format_date c'), startTime_opt = Some (startTime s),
                     endTime_opt = Some (endTime s), hours_opt = Some (hours s)\<rparr>)
         ?src docs"
    using run by blast
next
  assume "filter (\<lambda>s. isSameWeek (parseISO (date s)) (Some (startOfWeek copied))) shifts = []"
  then show "snd (handlePasteWeek (Some copied) (Some Admin) True shifts target) = []"
    by (simp add: handlePasteWeek_def Let_def)
next
  show "getDay (startOfWeek copied) = 0" using startOfWeek_ok(3) [OF assms(1)] .
next
  have sow: "startOfWeek (startOfWeek copied) = startOfWeek copied"
    using startOfWeek_ok(3) [OF assms(1)]
    by (simp add: startOfWeek_def [of "startOfWeek copied"] addDays_def)
  show "isSameWeek (parseISO (date s)) (Some (startOfWeek copied)) \<longleftrightarrow>
       (\<exists>c. parseISO (date s) = Some c
          \<and> day_number (startOfWeek copied) \<le> day_number c
          \<and> day_number c \<le> day_number (startOfWeek copied) + 6)"
  proof (cases "parseISO (date s)")
    case None
    then show ?thesis by (simp add: isSameWeek_def)
  next
    case (Some c)
    have "valid_date c" using Some by (rule parseISO_valid)
    then show ?thesis using isSameWeek_iff [of c copied] assms(1) Some
      by (simp add: isSameWeek_def sow)
  qed
next
  show "handlePasteWeek (Some (2024, 1, 7)) (Some Admin) True
        [(shift_E ''a'' ''09:00'' ''12:00'')\<lparr>date := ''2024-01-09''\<rparr>] (2024, 1, 14) =
      (None, [BatchCommit
                [\<lparr>id_opt = None, employeeId_opt = Some ''E'', date_opt = Some ''2024-01-16'',
                  startTime_opt = Some ''09:00'', endTime_opt = Some ''12:00'',
                  hours_opt = Some (Fin 3)\<rparr>]])"
    by code_simp
qed

theorem handlePasteWeek_batch_witness:
  "valid_date (2024, 1, 10) \<and> valid_date (2024, 1, 14)
   \<and> filter (\<lambda>s. isSameWeek (parseISO (date s)) (Some (startOfWeek (2024, 1, 10))))
        [(shift_E ''a'' ''09:00'' ''12:00'')\<lparr>date := ''2024-01-09''\<rparr>] \<noteq> []
   \<and> (\<exists>doc.
         handlePasteWeek (Some (2024, 1, 10)) (Some Admin) True
           [(shift_E ''a'' ''09:00'' ''12:00'')\<lparr>date := ''2024-01-09''\<rparr>] (2024, 1, 14) =
           (None, [BatchCommit [doc]])
       \<and> id_opt doc = None \<and> employeeId_opt doc = Some ''E''
       \<and> startTime_opt doc = Some ''09:00'' \<and> endTime_opt doc = Some ''12:00''
       \<and> hours_opt doc = Some (Fin 3)
       \<and> (\<exists>c'. date_opt doc = Some (format_date c')
              \<and> day_number c' = day_number (2024, 1, 9) + 7))
   \<and> getDay (startOfWeek (2024, 1, 10)) = 0"
proof -
  let ?s = "(shift_E ''a'' ''09:00'' ''12:00'')\<lparr>date := ''2024-01-09''\<rparr>"
  have v: "valid_date (2024, 1, 10)" "valid_date (2024, 1, 14)"
    by code_simp+
  have ne: "filter (\<lambda>s. isSameWeek (parseISO (date s)) (Some (startOfWeek (2024, 1, 10)))) [?s] \<noteq> []"
    by code_simp
  have f: "filter (\<lambda>s. isSameWeek (parseISO (date s)) (Some (startOfWeek (2024, 1, 10)))) [?s] = [?s]"
    by code_simp
  have p: "parseISO (date ?s) = Some (2024, 1, 9)" by code_simp
  have off: "day_number (startOfWeek (2024, 1, 14)) - day_number (startOfWeek (2024, 1, 10)) = 7"
    by code_simp
  have flds: "employeeId ?s = ''E''" "startTime ?s = ''09:00''" "endTime ?s = ''12:00''"
    "hours ?s = Fin 3"
    by code_simp+
  note T = handlePasteWeek_batch [OF v, of "[?s]"]
  obtain docs where run: "handlePasteWeek (Some (2024, 1, 10)) (Some Admin) True [?s] (2024, 1, 14) =
           (None, [BatchCommit docs])"
    and all: "list_all2
           (\<lambda>s doc. \<exists>c c'.
              parseISO (date s) = Some c \<and> valid_date c'
            \<and> day_number c' = day_number c + (day_number (startOfWeek (2024, 1, 14)) - day_number (startOfWeek (2024, 1, 10)))
            \<and> (1 \<le> fst c' \<and> fst c' \<le> 9999 \<longrightarrow> parseISO (format_date c') = Some c')
            \<and> doc = \<lparr>id_opt = None, employeeId_opt = Some (employeeId s),
                     date_opt = Some (format_date c'), startTime_opt = Some (startTime s),
                     endTime_opt = Some (endTime s), hours_opt = Some (hours s)\<rparr>)
           [?s] docs"
    using T [THEN conjunct1, THEN mp, OF ne] unfolding f by blast
  from list_all2_single [OF all] obtain doc c c' where d: "docs = [doc]"
    and cc: "parseISO (date ?s) = Some c"
      "day_number c' = day_number c + (day_number (startOfWeek (2024, 1, 14)) - day_number (startOfWeek (2024, 1, 10)))"
      "doc = \<lparr>id_opt = None, employeeId_opt = Some (employeeId ?s),
                     date_opt = Some (format_date c'), startTime_opt = Some (startTime ?s),
                     endTime_opt = Some (endTime ?s), hours_opt = Some (hours ?s)\<rparr>"
    by blast
  have c: "c = (2024, 1, 9)" using cc(1) unfolding p by simp
  have c': "day_number c' = day_number (2024, 1, 9) + 7" using cc(2) unfolding c off .
  have doc: "id_opt doc = None" "employeeId_opt doc = Some ''E''"
    "startTime_opt doc = Some ''09:00''" "endTime_opt doc = Some ''12:00''"
    "hours_opt doc = Some (Fin 3)" "date_opt doc = Some (format_date c')"
    unfolding cc(3) flds by simp_all
  have "\<exists>c'. date_opt doc = Some (format_date c')
              \<and> day_number c' = day_number (2024, 1, 9) + 7"
    using doc(6) c' by blast
  then have "\<exists>doc.
         handlePasteWeek (Some (2024, 1, 10)) (Some Admin) True [?s] (2024, 1, 14) =
           (None, [BatchCommit [doc]])
       \<and> id_opt doc = None \<and> employeeId_opt doc = Some ''E''
       \<and> startTime_opt doc = Some ''09:00'' \<and> endTime_opt doc = Some ''12:00''
       \<and> hours_opt doc = Some (Fin 3)
       \<and> (\<exists>c'. date_opt doc = Some (format_date c')
              \<and> day_number c' = day_number (2024, 1, 9) + 7)"
    using run doc(1-5) unfolding d by blast
  moreover have "getDay (startOfWeek (2024, 1, 10)) = 0"
    using T by blast
  ultimately show ?thesis using v ne by blast
qed

section \<open>Properties of the column packing\<close>

lemma digit_val_code: "digit_val c = Some n \<Longrightarrow> n < 10 \<and> (of_char c :: nat) = 48 + n"
  by (auto simp: digit_val_def split: if_splits)

lemma digit_val_less:
  assumes "digit_val c = Some n" "digit_val c' = Some n'"
  shows "((of_char c :: nat) < of_char c') = (n < n')" "(c = c') = (n = n')"
proof -
  have a: "(of_char c :: nat) = 48 + n" "(of_char c' :: nat) = 48 + n'"
    using assms by (simp_all add: digit_val_code)
  show "((of_char c :: nat) < of_char c') = (n < n')" by (simp add: a)
  have "(c = c') = ((of_char c :: nat) = of_char c')" by simp
  then show "(c = c') = (n = n')" by (simp add: a)
qed

lemma str_lt_times:
  assumes "parse_HHmm s = Some m" "parse_HHmm t = Some n"
  shows "str_lt s t = (m < n)" "(s = t) = (m = n)"
proof -
  from assms(1) obtain a b d e h1 h2 m1 m2 where s: "s = [a, b, CHR '':'', d, e]"
    and ds: "digit_val a = Some h1" "digit_val b = Some h2" "digit_val d = Some m1" "digit_val e = Some m2"
    and bs: "10 * h1 + h2 \<le> 23" "10 * m1 + m2 \<le> 59" and m: "m = 60 * (10 * h1 + h2) + (10 * m1 + m2)"
    by (rule parse_HHmm_shape)
  from assms(2) obtain a' b' d' e' k1 k2 n1 n2 where t: "t = [a', b', CHR '':'', d', e']"
    and dt: "digit_val a' = Some k1" "digit_val b' = Some k2" "digit_val d' = Some n1" "digit_val e' = Some n2"
    and bt: "10 * k1 + k2 \<le> 23" "10 * n1 + n2 \<le> 59" and n: "n = 60 * (10 * k1 + k2) + (10 * n1 + n2)"
    by (rule parse_HHmm_shape)
  have lt: "h2 < 10" "m2 < 10" "k2 < 10" "n2 < 10"
    using ds dt by (auto dest: digit_val_code)
  have "str_lt s t = (h1 < k1 \<or> h1 = k1 \<and> (h2 < k2 \<or> h2 = k2 \<and> (m1 < n1 \<or> m1 = n1 \<and> m2 < n2)))"
    by (simp add: s t digit_val_less [OF ds(1) dt(1)] digit_val_less [OF ds(2) dt(2)]
        digit_val_less [OF ds(3) dt(3)] digit_val_less [OF ds(4) dt(4)])
  also have L1: "\<dots> = (m < n)" unfolding m n using lt bs bt by auto
  finally show "str_lt s t = (m < n)" .
  have L2: "(k1 < h1 \<or> k1 = h1 \<and> (k2 < h2 \<or> k2 = h2 \<and> (n1 < m1 \<or> n1 = m1 \<and> n2 < m2))) = (n < m)"
    unfolding m n using lt bs bt by auto
  have "(s = t) = (h1 = k1 \<and> h2 = k2 \<and> m1 = n1 \<and> m2 = n2)"
    by (simp add: s t digit_val_less [OF ds(1) dt(1)] digit_val_less [OF ds(2) dt(2)]
        digit_val_less [OF ds(3) dt(3)] digit_val_less [OF ds(4) dt(4)])
  also have "\<dots> = (\<not> m < n \<and> \<not> n < m)"
    unfolding L1 [symmetric] L2 [symmetric] by auto
  also have "\<dots> = (m = n)" by auto
  finally show "(s = t) = (m = n)" .
qed

lemma valid_times_parse:
  assumes "valid_times s"
  obtains a b where "parse_HHmm (startTime s) = Some a" "parse_HHmm (endTime s) = Some b"
    "start_min s = a" "end_min s = b"
  using assms by (auto simp: valid_times_def start_min_def end_min_def)

lemma compare_start:
  assumes "valid_times x" "valid_times y"
  shows "(localeCompare (startTime x) (startTime y) \<le> 0) = (start_min x \<le> start_min y)"
proof -
  from assms(1) obtain a where a: "parse_HHmm (startTime x) = Some a" "start_min x = a"
    by (rule valid_times_parse)
  from assms(2) obtain b where b: "parse_HHmm (startTime y) = Some b" "start_min y = b"
    by (rule valid_times_parse)
  show ?thesis
    using str_lt_times [OF a(1) b(1)] by (auto simp: localeCompare_def a(2) b(2))
qed

lemma ge_end:
  assumes "valid_times x" "valid_times y"
  shows "str_ge (startTime x) (endTime y) = (end_min y \<le> start_min x)"
proof -
  from assms(1) obtain a where a: "parse_HHmm (startTime x) = Some a" "start_min x = a"
    by (rule valid_times_parse)
  from assms(2) obtain b where b: "parse_HHmm (endTime y) = Some b" "end_min y = b"
    by (rule valid_times_parse)
  show ?thesis
    using str_lt_times(1) [OF a(1) b(1)] by (auto simp: str_ge_def a(2) b(2))
qed

lemma insert_by_insort:
  assumes "valid_times x" "\<forall>y \<in> set ys. valid_times y"
  shows "insert_by (\<lambda>a b. localeCompare (startTime a) (startTime b)) x ys =
     insort_key start_min x ys"
  using assms(2)
proof (induction ys)
  case Nil
  then show ?case by simp
next
  case (Cons y ys)
  then have "valid_times y" by simp
  then show ?case using Cons compare_start [OF assms(1)] by simp
qed

lemma js_sort_sort_key:
  assumes "\<forall>x \<in> set xs. valid_times x"
  shows "js_sort (\<lambda>a b. localeCompare (startTime a) (startTime b)) xs = sort_key start_min xs"
  using assms
proof (induction xs)
  case Nil
  then show ?case by (simp add: js_sort_def)
next
  case (Cons x xs)
  then have ih: "foldr (insert_by (\<lambda>a b. localeCompare (startTime a) (startTime b))) xs [] =
      sort_key start_min xs"
    by (simp add: js_sort_def)
  have "\<forall>y \<in> set (sort_key start_min xs). valid_times y" using Cons.prems by simp
  then show ?case using Cons.prems ih insert_by_insort [of x "sort_key start_min xs"]
    by (simp add: js_sort_def sort_key_def)
qed

lemma placeInColumn_spec:
  assumes "valid_times shift" "columns_ok cols"
  shows "(case placeInColumn shift cols of
            Inl e \<Rightarrow> False
          | Inr None \<Rightarrow> spec_place shift cols = cols @ [[shift]]
          | Inr (Some cols') \<Rightarrow> spec_place shift cols = cols')"
  using assms(2)
proof (induction cols)
  case Nil
  then show ?case by simp
next
  case (Cons col cols)
  then have col: "col \<noteq> []" "valid_times (last col)" and rest: "columns_ok cols"
    by (auto simp: columns_ok_def)
  obtain z zs where z: "col = z # zs" using col(1) by (cases col) auto
  have ge: "str_ge (startTime shift) (endTime (last col)) = (end_min (last col) \<le> start_min shift)"
    using ge_end [OF assms(1) col(2)] .
  show ?case
  proof (cases "end_min (last col) \<le> start_min shift")
    case True
    then show ?thesis using ge col(1) z by simp
  next
    case False
    then show ?thesis using ge col(1) z Cons.IH [OF rest]
      by (auto split: sum.splits option.splits)
  qed
qed

lemma spec_place_ok:
  assumes "valid_times shift" "columns_ok cols"
  shows "columns_ok (spec_place shift cols)"
  using assms(2)
proof (induction cols)
  case Nil
  then show ?case using assms(1) by (simp add: columns_ok_def)
next
  case (Cons col cols)
  then have "columns_ok cols" by (simp add: columns_ok_def)
  then have "columns_ok (spec_place shift cols)" by (rule Cons.IH)
  then show ?case using Cons.prems assms(1) by (auto simp: columns_ok_def)
qed

lemma packShifts_spec:
  assumes "\<forall>s \<in> set ss. valid_times s" "columns_ok cols"
  shows "packShifts ss cols = Inr (foldl (\<lambda>c s. spec_place s c) cols ss)"
  using assms
proof (induction ss arbitrary: cols)
  case Nil
  then show ?case by simp
next
  case (Cons s ss)
  have v: "valid_times s" using Cons.prems(1) by simp
  have ok: "columns_ok (spec_place s cols)" using spec_place_ok [OF v Cons.prems(2)] .
  have ih: "packShifts ss (spec_place s cols) = Inr (foldl (\<lambda>c s. spec_place s c) (spec_place s cols) ss)"
    using Cons.IH [OF _ ok] Cons.prems(1) by simp
  show ?case using placeInColumn_spec [OF v Cons.prems(2)] ih
    by (auto split: sum.splits option.splits)
qed

lemma dayColumns_packDay:
  assumes "\<forall>s \<in> set dayShifts. valid_times s"
  shows "dayColumns dayShifts = Inr (packDay dayShifts)"
proof -
  have "\<forall>s \<in> set (sort_key start_min dayShifts). valid_times s" using assms by simp
  moreover have "columns_ok []" by (simp add: columns_ok_def)
  ultimately show ?thesis
    unfolding dayColumns_def packDay_def js_sort_sort_key [OF assms]
    by (rule packShifts_spec)
qed

lemma render_layout:
  assumes "dayColumns dayShifts = Inr columns"
  shows "renderShiftsForDay employees dayShifts = Inr (layoutOf employees columns)"
proof (cases "columns = []")
  case True
  then show ?thesis using assms by (simp add: renderShiftsForDay_def layoutOf_def)
next
  case False
  then have "(of_nat (length columns) :: rat) \<noteq> 0" by simp
  then show ?thesis using assms
    by (auto simp: renderShiftsForDay_def layoutOf_def Let_def)
qed

text \<open>
  C4. For shifts with valid times, the columns of \<open>renderShiftsForDay\<close> are those of the
  specification's packing: a stable sort by start time, then each shift into the first
  column whose last shift ends at or before its start, else a new column; no TypeError
  occurs. Every rendered shift has the width 100 divided by the number of columns. The
  shifts A 09:00--10:00, B 09:30--10:30, C 10:00--11:00 give the columns [[A, C], [B]]
  and widths of 50.
\<close>

theorem column_packing:
  assumes "\<forall>s \<in> set dayShifts. valid_times s"
  shows "dayColumns dayShifts = Inr (packDay dayShifts)
     \<and> renderShiftsForDay employees dayShifts = Inr (layoutOf employees (packDay dayShifts))
     \<and> dayColumns [shift_E ''A'' ''09:00'' ''10:00'', shift_E ''B'' ''09:30'' ''10:30'',
            shift_E ''C'' ''10:00'' ''11:00''] =
         Inr [[shift_E ''A'' ''09:00'' ''10:00'', shift_E ''C'' ''10:00'' ''11:00''],
              [shift_E ''B'' ''09:30'' ''10:30'']]
     \<and> renderShiftsForDay [''E''] [shift_E ''C'' ''10:00'' ''11:00'', shift_E ''B'' ''09:30'' ''10:30'',
            shift_E ''A'' ''09:00'' ''10:00''] =
         Inr [[Some (shift_E ''A'' ''09:00'' ''10:00'', Fin 0, Fin 50),
               Some (shift_E ''C'' ''10:00'' ''11:00'', Fin 0, Fin 50)],
              [Some (shift_E ''B'' ''09:30'' ''10:30'', Fin 50, Fin 50)]]"
proof (intro conjI)
  show 1: "dayColumns dayShifts = Inr (packDay dayShifts)"
    using assms by (rule dayColumns_packDay)
  show "renderShiftsForDay employees dayShifts = Inr (layoutOf employees (packDay dayShifts))"
    using 1 by (rule render_layout)
  show "dayColumns [shift_E ''A'' ''09:00'' ''10:00'', shift_E ''B'' ''09:30'' ''10:30'',
            shift_E ''C'' ''10:00'' ''11:00''] =
         Inr [[shift_E ''A'' ''09:00'' ''10:00'', shift_E ''C'' ''10:00'' ''11:00''],
              [shift_E ''B'' ''09:30'' ''10:30'']]"
    by code_simp
  show "renderShiftsForDay [''E''] [shift_E ''C'' ''10:00'' ''11:00'', shift_E ''B'' ''09:30'' ''10:30'',
            shift_E ''A'' ''09:00'' ''10:00''] =
         Inr [[Some (shift_E ''A'' ''09:00'' ''10:00'', Fin 0, Fin 50),
               Some (shift_E ''C'' ''10:00'' ''11:00'', Fin 0, Fin 50)],
              [Some (shift_E ''B'' ''09:30'' ''10:30'', Fin 50, Fin 50)]]"
    by code_simp
qed

theorem column_packing_witness:
  "valid_times (shift_E ''A'' ''09:00'' ''10:00'') \<and> valid_times (shift_E ''B'' ''09:30'' ''10:30'')
   \<and> valid_times (shift_E ''C'' ''10:00'' ''11:00'')
   \<and> packDay [shift_E ''A'' ''09:00'' ''10:00'', shift_E ''B'' ''09:30'' ''10:30'',
               shift_E ''C'' ''10:00'' ''11:00''] =
       [[shift_E ''A'' ''09:00'' ''10:00'', shift_E ''C'' ''10:00'' ''11:00''],
        [shift_E ''B'' ''09:30'' ''10:30'']]
   \<and> length (packDay [shift_E ''A'' ''09:00'' ''10:00'', shift_E ''B'' ''09:30'' ''10:30'',
               shift_E ''C'' ''10:00'' ''11:00'']) = 2"
proof -
  let ?S = "[shift_E ''A'' ''09:00'' ''10:00'', shift_E ''B'' ''09:30'' ''10:30'',
             shift_E ''C'' ''10:00'' ''11:00'']"
  have vs: "valid_times (shift_E ''A'' ''09:00'' ''10:00'')"
    "valid_times (shift_E ''B'' ''09:30'' ''10:30'')" "valid_times (shift_E ''C'' ''10:00'' ''11:00'')"
    by code_simp+
  then have v: "\<forall>s \<in> set ?S. valid_times s" by simp
  note T = column_packing [OF v, of "[]"]
  have a: "dayColumns ?S = Inr (packDay ?S)" using T by (rule conjunct1)
  have b: "dayColumns ?S = Inr [[shift_E ''A'' ''09:00'' ''10:00'', shift_E ''C'' ''10:00'' ''11:00''],
        [shift_E ''B'' ''09:30'' ''10:30'']]"
    using T by (elim conjE)
  have p: "packDay ?S = [[shift_E ''A'' ''09:00'' ''10:00'', shift_E ''C'' ''10:00'' ''11:00''],
        [shift_E ''B'' ''09:30'' ''10:30'']]"
    using b unfolding a by simp
  show ?thesis using vs p by simp
qed

end
